theory Spec2Isabelle
  imports Complex_Main
begin

section \<open>Chunked upload (edge function, \<^verbatim>\<open>uploadVideoToFilesAPI\<close>)\<close>

text \<open>
  The performance-analysis edge function uploads a video through the resumable protocol
  of the Files API. \<^verbatim>\<open>File.size\<close> is a non-negative integer, so sizes are \<open>nat\<close>;
  offsets and lengths are computed with \<open>-\<close> in the source and are kept as \<open>int\<close>.
  The remote service is the environment: it tells whether the initiation request was
  accepted, whether it carried the upload URL, and whether the PUT of chunk \<open>i\<close> was
  acknowledged (a rejected \<^verbatim>\<open>fetch\<close> counts as not acknowledged: both leave the function
  by an exception). The body of the finalizing response is taken to be the file object
  of the protocol, whose \<^verbatim>\<open>file.name\<close> the function reads. The model returns the outcome
  together with the requests issued, in order.
\<close>

definition MAX_CHUNK_SIZE :: nat where
  "MAX_CHUNK_SIZE = 50 * 1024 * 1024"

datatype upload_command = Upload | UploadFinalize

record put_request =
  content_length :: int
  upload_offset :: int
  command :: upload_command

datatype upload_outcome =
    Finalized
  | ChunkFailed nat
  | FellThrough

text \<open>
  \<^verbatim>\<open>Math.ceil(fileSize / MAX_CHUNK_SIZE)\<close>. The quotient is a double; its rounding error is
  below \<open>1 / MAX_CHUNK_SIZE\<close> for every size below \<open>2\<^sup>5\<^sup>3\<close>, so the ceiling is the exact one.
\<close>

definition chunk_count :: "nat \<Rightarrow> nat" where
  "chunk_count fileSize = nat \<lceil>real fileSize / real MAX_CHUNK_SIZE\<rceil>"

definition chunk_request :: "nat \<Rightarrow> nat \<Rightarrow> nat \<Rightarrow> put_request" where
  "chunk_request fileSize chunks i =
     (let start = int i * int MAX_CHUNK_SIZE;
          end = min (start + int MAX_CHUNK_SIZE) (int fileSize);
          chunkSize = end - start;
          isLastChunk = (int i = int chunks - 1)
      in \<lparr> content_length = chunkSize,
           upload_offset = start,
           command = (if isLastChunk then UploadFinalize else Upload) \<rparr>)"

text \<open>
  The \<^verbatim>\<open>for (let i = 0; i < chunks; i++)\<close> loop: a chunk that is not acknowledged
  throws; the last chunk returns from inside the loop; a loop that runs out returns
  nothing (\<^verbatim>\<open>undefined\<close>).
\<close>

function chunk_loop :: "(nat \<Rightarrow> bool) \<Rightarrow> nat \<Rightarrow> nat \<Rightarrow> nat \<Rightarrow> upload_outcome \<times> put_request list" where
  "chunk_loop acked fileSize chunks i =
     (if i < chunks then
        (let req = chunk_request fileSize chunks i in
         if \<not> acked i then (ChunkFailed (i + 1), [req])
         else if int i = int chunks - 1 then (Finalized, [req])
         else (case chunk_loop acked fileSize chunks (i + 1) of
                 (r, reqs) \<Rightarrow> (r, req # reqs)))
      else (FellThrough, []))"
  by pat_completeness auto
termination
  by (relation "measure (\<lambda>(acked, fileSize, chunks, i). chunks - i)") auto

declare chunk_loop.simps [simp del]

section \<open>Readiness pollers (\<^verbatim>\<open>waitForFileProcessing\<close>)\<close>

text \<open>
  Both edge functions poll the status URL of the uploaded file. The environment is a
  list of poll events: the value of \<^verbatim>\<open>Date.now() - startTime\<close> read by the loop test
  (milliseconds) and what the \<^verbatim>\<open>fetch\<close> that follows yields. A poller that has used up
  the events it was given is still polling. The model returns the result and the
  actions taken: each status request and each sleep with its length in milliseconds.
\<close>

datatype file_state = ACTIVE | FAILED | OtherState

datatype response_body = Unreadable | FileStatus file_state

datatype poll_outcome = FetchRejected | Response nat response_body

record poll_event =
  elapsed :: nat
  outcome :: poll_outcome

datatype poll_error =
    StatusCheckFailed nat
  | ProcessingFailed
  | ProcessingTimeout
  | RequestFailed

datatype wait_result = Returned | Threw poll_error | StillPolling

datatype poll_action = StatusGET | Sleep real

text \<open>\<^verbatim>\<open>Response.ok\<close>: the status is in the range 200-299.\<close>

definition response_ok :: "nat \<Rightarrow> bool" where
  "response_ok status \<longleftrightarrow> 200 \<le> status \<and> status \<le> 299"

text \<open>
  The poller of the large-video function (default \<^verbatim>\<open>maxWaitTime = 300000\<close>): no
  \<^verbatim>\<open>try\<close> around the request, and a fixed sleep of 5000 ms.
\<close>

fun waitForFileProcessing_v1 :: "nat \<Rightarrow> poll_event list \<Rightarrow> wait_result \<times> poll_action list" where
  "waitForFileProcessing_v1 maxWaitTime [] = (StillPolling, [])"
| "waitForFileProcessing_v1 maxWaitTime (ev # evs) =
     (if elapsed ev < maxWaitTime then
        (case outcome ev of
           FetchRejected \<Rightarrow> (Threw RequestFailed, [StatusGET])
         | Response status body \<Rightarrow>
             if \<not> response_ok status then (Threw (StatusCheckFailed status), [StatusGET])
             else (case body of
                     Unreadable \<Rightarrow> (Threw RequestFailed, [StatusGET])
                   | FileStatus ACTIVE \<Rightarrow> (Returned, [StatusGET])
                   | FileStatus FAILED \<Rightarrow> (Threw ProcessingFailed, [StatusGET])
                   | FileStatus OtherState \<Rightarrow>
                       (case waitForFileProcessing_v1 maxWaitTime evs of
                          (r, acts) \<Rightarrow> (r, StatusGET # Sleep 5000 # acts))))
      else (Threw ProcessingTimeout, []))"

text \<open>
  The poller of the performance-analysis function (default
  \<^verbatim>\<open>maxWaitTime = 600000\<close>, \<^verbatim>\<open>checkInterval\<close> starting at 5000): the loop body is
  inside \<^verbatim>\<open>try\<close>, and the \<^verbatim>\<open>catch\<close> sleeps for the current interval and goes on.
  Every \<^verbatim>\<open>throw\<close> of the body lands in that \<^verbatim>\<open>catch\<close>, the one for the state
  \<^verbatim>\<open>FAILED\<close> included.
\<close>

fun waitForFileProcessing_v2 :: "nat \<Rightarrow> real \<Rightarrow> poll_event list \<Rightarrow> wait_result \<times> poll_action list" where
  "waitForFileProcessing_v2 maxWaitTime checkInterval [] = (StillPolling, [])"
| "waitForFileProcessing_v2 maxWaitTime checkInterval (ev # evs) =
     (if elapsed ev < maxWaitTime then
        (let caught = (case waitForFileProcessing_v2 maxWaitTime checkInterval evs of
                         (r, acts) \<Rightarrow> (r, StatusGET # Sleep checkInterval # acts))
         in case outcome ev of
           FetchRejected \<Rightarrow> caught
         | Response status body \<Rightarrow>
             if \<not> response_ok status then caught
             else (case body of
                     Unreadable \<Rightarrow> caught
                   | FileStatus ACTIVE \<Rightarrow> (Returned, [StatusGET])
                   | FileStatus FAILED \<Rightarrow> caught
                   | FileStatus OtherState \<Rightarrow>
                       (case waitForFileProcessing_v2 maxWaitTime
                               (min (checkInterval * 1.2) 30000) evs of
                          (r, acts) \<Rightarrow> (r, StatusGET # Sleep checkInterval # acts))))
      else (Threw ProcessingTimeout, []))"


section \<open>The whole upload of the performance-analysis function\<close>

record upload_env =
  metadata_ok :: bool
  upload_url_present :: bool
  put_ok :: "nat \<Rightarrow> bool"
  poll_events :: "poll_event list"

datatype net_request =
    InitiationPOST nat
  | ChunkPUT put_request
  | StatusRequest

datatype upload_error =
    MetadataRequestFailed
  | NoUploadUrl
  | FileUploadFailed
  | ChunkUploadFailed nat
  | PollError poll_error

datatype upload_result =
    Uploaded
  | UploadThrew upload_error
  | AwaitingProcessing
  | ReturnedUndefined

fun status_requests :: "poll_action list \<Rightarrow> net_request list" where
  "status_requests [] = []"
| "status_requests (StatusGET # acts) = StatusRequest # status_requests acts"
| "status_requests (Sleep t # acts) = status_requests acts"

text \<open>After the finalizing PUT: \<^verbatim>\<open>await waitForFileProcessing(uploadResult.file.name, apiKey)\<close>.\<close>

definition after_finalize :: "upload_env \<Rightarrow> net_request list \<Rightarrow> upload_result \<times> net_request list" where
  "after_finalize env sent =
     (case waitForFileProcessing_v2 600000 5000 (poll_events env) of
        (Returned, acts) \<Rightarrow> (Uploaded, sent @ status_requests acts)
      | (Threw e, acts) \<Rightarrow> (UploadThrew (PollError e), sent @ status_requests acts)
      | (StillPolling, acts) \<Rightarrow> (AwaitingProcessing, sent @ status_requests acts))"

definition uploadVideoToFilesAPI :: "upload_env \<Rightarrow> nat \<Rightarrow> upload_result \<times> net_request list" where
  "uploadVideoToFilesAPI env fileSize =
     (let start = [InitiationPOST fileSize] in
      if \<not> metadata_ok env then (UploadThrew MetadataRequestFailed, start)
      else if \<not> upload_url_present env then (UploadThrew NoUploadUrl, start)
      else if fileSize \<le> MAX_CHUNK_SIZE then
        (let req = \<lparr> content_length = int fileSize, upload_offset = 0,
                       command = UploadFinalize \<rparr>
         in if \<not> put_ok env 0 then (UploadThrew FileUploadFailed, start @ [ChunkPUT req])
            else after_finalize env (start @ [ChunkPUT req]))
      else
        (case chunk_loop (put_ok env) fileSize (chunk_count fileSize) 0 of
           (Finalized, reqs) \<Rightarrow> after_finalize env (start @ map ChunkPUT reqs)
         | (ChunkFailed k, reqs) \<Rightarrow>
             (UploadThrew (ChunkUploadFailed k), start @ map ChunkPUT reqs)
         | (FellThrough, reqs) \<Rightarrow> (ReturnedUndefined, start @ map ChunkPUT reqs)))"

fun put_requests :: "net_request list \<Rightarrow> put_request list" where
  "put_requests [] = []"
| "put_requests (ChunkPUT r # rs) = r # put_requests rs"
| "put_requests (_ # rs) = put_requests rs"

text \<open>A service that accepts every request, with no status answer yet.\<close>

definition accepting_env :: upload_env where
  "accepting_env = \<lparr> metadata_ok = True, upload_url_present = True,
                      put_ok = (\<lambda>i. True), poll_events = [] \<rparr>"

section \<open>Poll sequences used in the statements\<close>



definition active_poll :: poll_event where
  "active_poll = \<lparr> elapsed = 0, outcome = Response 200 (FileStatus ACTIVE) \<rparr>"

definition failed_poll :: poll_event where
  "failed_poll = \<lparr> elapsed = 0, outcome = Response 200 (FileStatus FAILED) \<rparr>"

definition unavailable_poll :: poll_event where
  "unavailable_poll = \<lparr> elapsed = 0, outcome = Response 503 Unreadable \<rparr>"

definition rejected_poll :: poll_event where
  "rejected_poll = \<lparr> elapsed = 0, outcome = FetchRejected \<rparr>"

section \<open>The checks of the browser client before any request\<close>

text \<open>
  \<^verbatim>\<open>uploadAndAnalyzeVideo\<close> and \<^verbatim>\<open>analyzePlayerPerformance\<close> of the client test the file
  before they do anything else; \<open>None\<close> means that the file passes. \<open>blank\<close> tells
  whether the player name is empty after \<^verbatim>\<open>trim()\<close>.
\<close>

datatype client_error = UnsupportedFormat | EmptyVideo | VideoTooLarge | EmptyPlayerName

definition MAX_FILE_SIZE :: nat where
  "MAX_FILE_SIZE = 2 * 1024 * 1024 * 1024"

definition uploadAndAnalyzeVideo_checks :: "string \<Rightarrow> nat \<Rightarrow> client_error option" where
  "uploadAndAnalyzeVideo_checks fileType fileSize =
     (if take 6 fileType \<noteq> ''video/'' then Some UnsupportedFormat
      else if fileSize = 0 then Some EmptyVideo
      else if fileSize > MAX_FILE_SIZE then Some VideoTooLarge
      else None)"

definition analyzePlayerPerformance_checks :: "nat \<Rightarrow> bool \<Rightarrow> client_error option" where
  "analyzePlayerPerformance_checks fileSize blank =
     (if fileSize = 0 then Some EmptyVideo
      else if blank then Some EmptyPlayerName
      else if fileSize > MAX_FILE_SIZE then Some VideoTooLarge
      else None)"

section \<open>JavaScript values\<close>

text \<open>
  A JavaScript number is a finite value, an infinity or \<^verbatim>\<open>NaN\<close>. Finite values are
  modelled as reals: comparison, \<^verbatim>\<open>Math.max\<close> and \<^verbatim>\<open>Math.min\<close> are exact on doubles;
  the rounding of \<open>+\<close> and \<open>*\<close> and the sign of zero are not modelled.
\<close>

datatype jsnum = Fin real | PosInf | NegInf | NaN

definition js_lt :: "jsnum \<Rightarrow> jsnum \<Rightarrow> bool" where
  "js_lt a b =
     (case (a, b) of
        (Fin u, Fin v) \<Rightarrow> u < v
      | (Fin u, PosInf) \<Rightarrow> True
      | (NegInf, Fin v) \<Rightarrow> True
      | (NegInf, PosInf) \<Rightarrow> True
      | _ \<Rightarrow> False)"

definition js_gt :: "jsnum \<Rightarrow> jsnum \<Rightarrow> bool" where
  "js_gt a b = js_lt b a"

definition Math_max :: "jsnum \<Rightarrow> jsnum \<Rightarrow> jsnum" where
  "Math_max a b = (if a = NaN \<or> b = NaN then NaN else if js_lt a b then b else a)"

definition Math_min :: "jsnum \<Rightarrow> jsnum \<Rightarrow> jsnum" where
  "Math_min a b = (if a = NaN \<or> b = NaN then NaN else if js_lt b a then b else a)"

definition js_add :: "jsnum \<Rightarrow> jsnum \<Rightarrow> jsnum" where
  "js_add a b =
     (case (a, b) of
        (Fin u, Fin v) \<Rightarrow> Fin (u + v)
      | (NaN, _) \<Rightarrow> NaN
      | (_, NaN) \<Rightarrow> NaN
      | (PosInf, NegInf) \<Rightarrow> NaN
      | (NegInf, PosInf) \<Rightarrow> NaN
      | (PosInf, _) \<Rightarrow> PosInf
      | (_, PosInf) \<Rightarrow> PosInf
      | (NegInf, _) \<Rightarrow> NegInf
      | (_, NegInf) \<Rightarrow> NegInf)"

text \<open>\<^verbatim>\<open>Math.round(v * 10) / 10\<close>: \<^verbatim>\<open>Math.round\<close> rounds half up.\<close>

definition round_tenth :: "jsnum \<Rightarrow> jsnum" where
  "round_tenth a = (case a of Fin u \<Rightarrow> Fin (of_int \<lfloor>u * 10 + 1 / 2\<rfloor> / 10) | _ \<Rightarrow> a)"

text \<open>The number lies in the closed interval (and is neither \<^verbatim>\<open>NaN\<close> nor infinite).\<close>

definition in_range :: "real \<Rightarrow> real \<Rightarrow> jsnum \<Rightarrow> bool" where
  "in_range lo hi a = (case a of Fin u \<Rightarrow> lo \<le> u \<and> u \<le> hi | _ \<Rightarrow> False)"

text \<open>
  The values \<^verbatim>\<open>JSON.parse\<close> returns. A string is a list of 8-bit code units; an
  object keeps its members in source order, and a later member with the same key wins.
  \<^verbatim>\<open>undefined\<close> is not a JSON value: a property read yields an \<open>option\<close>.
\<close>

datatype json =
    JNull
  | JBool bool
  | JNum jsnum
  | JStr string
  | JArr "json list"
  | JObj "(string \<times> json) list"

text \<open>
  Reading \<^verbatim>\<open>v.key\<close> for one of the keys the code reads (none of them is an own or
  inherited property of a string, an array, a number or a boolean). Reading a property
  of \<^verbatim>\<open>null\<close> throws a \<^verbatim>\<open>TypeError\<close>; the callers test for \<open>JNull\<close> first.
\<close>

definition get_prop :: "json \<Rightarrow> string \<Rightarrow> json option" where
  "get_prop v key = (case v of JObj members \<Rightarrow> map_of (rev members) key | _ \<Rightarrow> None)"

text \<open>\<^verbatim>\<open>v?.key\<close> where \<open>v\<close> may be \<^verbatim>\<open>undefined\<close> or \<^verbatim>\<open>null\<close>.\<close>

definition opt_prop :: "json option \<Rightarrow> string \<Rightarrow> json option" where
  "opt_prop v key = (case v of None \<Rightarrow> None | Some u \<Rightarrow> get_prop u key)"

definition truthy :: "json option \<Rightarrow> bool" where
  "truthy v =
     (case v of
        None \<Rightarrow> False
      | Some JNull \<Rightarrow> False
      | Some (JBool b) \<Rightarrow> b
      | Some (JNum n) \<Rightarrow> n \<noteq> Fin 0 \<and> n \<noteq> NaN
      | Some (JStr s) \<Rightarrow> s \<noteq> []
      | Some _ \<Rightarrow> True)"

text \<open>\<^verbatim>\<open>v || d\<close> for a property read \<open>v\<close> and a default \<open>d\<close>.\<close>

definition or_else :: "json option \<Rightarrow> json \<Rightarrow> json" where
  "or_else v d = (if truthy v then the v else d)"

text \<open>\<^verbatim>\<open>typeof v === 'number' ? v : d\<close>\<close>

definition number_or :: "json option \<Rightarrow> jsnum \<Rightarrow> jsnum" where
  "number_or v d = (case v of Some (JNum n) \<Rightarrow> n | _ \<Rightarrow> d)"

text \<open>\<^verbatim>\<open>Number(v)\<close>. On strings, arrays and objects the conversion is a parameter.\<close>

definition Number_js :: "(json \<Rightarrow> jsnum) \<Rightarrow> json option \<Rightarrow> jsnum" where
  "Number_js to_number v =
     (case v of
        None \<Rightarrow> NaN
      | Some JNull \<Rightarrow> Fin 0
      | Some (JBool b) \<Rightarrow> Fin (if b then 1 else 0)
      | Some (JNum n) \<Rightarrow> n
      | Some u \<Rightarrow> to_number u)"

text \<open>\<^verbatim>\<open>n || d\<close> on numbers: zero and \<^verbatim>\<open>NaN\<close> are falsy.\<close>

definition num_or_else :: "jsnum \<Rightarrow> jsnum \<Rightarrow> jsnum" where
  "num_or_else n d = (if n = Fin 0 \<or> n = NaN then d else n)"

text \<open>\<^verbatim>\<open>(n).toString()\<close> for a non-negative integer.\<close>

definition digit_char :: "nat \<Rightarrow> char" where
  "digit_char d = ''0123456789'' ! d"

fun string_of_nat :: "nat \<Rightarrow> string" where
  "string_of_nat n =
     (if n < 10 then [digit_char n] else string_of_nat (n div 10) @ [digit_char (n mod 10)])"

declare string_of_nat.simps [simp del]

section \<open>Performance data: the validator and the fallback generator\<close>

text \<open>
  Built-ins of the JavaScript runtime that the code calls and that are taken as
  parameters: \<^verbatim>\<open>JSON.parse\<close> (\<open>None\<close> when it throws), the conversion \<^verbatim>\<open>Number(v)\<close> on
  strings, arrays and objects, the number that \<^verbatim>\<open>Math.min\<close> reads from \<^verbatim>\<open>v + d\<close> when
  \<open>v\<close> is a string, an array or an object (\<open>+\<close> concatenates there), whether
  \<^verbatim>\<open>new Date(s)\<close> is a valid date, and \<^verbatim>\<open>toISOString\<close> of a time in milliseconds.
\<close>

record runtime =
  JSON_parse :: "string \<Rightarrow> json option"
  to_number :: "json \<Rightarrow> jsnum"
  concat_number :: "json \<Rightarrow> real \<Rightarrow> jsnum"
  date_parses :: "string \<Rightarrow> bool"
  toISOString :: "nat \<Rightarrow> string"

record performance_data =
  matchId :: json
  date :: json
  opponent :: json
  overall :: jsnum
  speed :: jsnum
  passing :: jsnum
  positioning :: jsnum
  touches :: jsnum
  distance :: jsnum
  topSpeed :: jsnum
  passAccuracy :: jsnum
  dominantFoot_right :: jsnum
  dominantFoot_left :: jsnum

text \<open>The string constant of the source for "opposing team", as UTF-8 bytes.\<close>

definition opponent_default :: string where
  "opponent_default =
     [CHR 0xE5, CHR 0xAF, CHR 0xB9, CHR 0xE6, CHR 0x89, CHR 0x8B,
      CHR 0xE9, CHR 0x98, CHR 0x9F, CHR 0xE4, CHR 0xBC, CHR 0x8D]"

text \<open>White space of \<^verbatim>\<open>String.prototype.trim\<close> and of \<^verbatim>\<open>\s\<close> among the 8-bit code units.\<close>

definition js_space :: "char \<Rightarrow> bool" where
  "js_space c \<longleftrightarrow> c \<in> set [CHR 0x09, CHR 0x0A, CHR 0x0B, CHR 0x0C, CHR 0x0D, CHR 0x20, CHR 0xA0]"


text \<open>\<^verbatim>\<open>Math.max(lo, Math.min(hi, Number(v) || d))\<close>\<close>

definition clamped :: "runtime \<Rightarrow> real \<Rightarrow> real \<Rightarrow> real \<Rightarrow> json option \<Rightarrow> jsnum" where
  "clamped rt lo hi d v =
     Math_max (Fin lo) (Math_min (Fin hi) (num_or_else (Number_js (to_number rt) v) (Fin d)))"


text \<open>
  \<^verbatim>\<open>generateFallbackPerformanceData(playerName)\<close>. \<open>random k\<close> is the value of the
  \<open>k\<close>-th call of \<^verbatim>\<open>Math.random()\<close>, a number in \<open>[0, 1)\<close>; \<open>now\<close> is the clock. The
  player name is not used by the body.
\<close>

definition generateFallbackPerformanceData ::
    "runtime \<Rightarrow> (nat \<Rightarrow> real) \<Rightarrow> nat \<Rightarrow> string \<Rightarrow> performance_data" where
  "generateFallbackPerformanceData rt random now playerName =
     (let baseScore = 70 + of_int \<lfloor>random 0 * 20\<rfloor> in
      \<lparr> matchId = JStr (''match_'' @ string_of_nat now),
        date = JStr (toISOString rt now),
        opponent = JStr opponent_default,
        overall = Fin baseScore,
        speed = Fin (baseScore + of_int \<lfloor>random 1 * 10\<rfloor> - 5),
        passing = Fin (baseScore + of_int \<lfloor>random 2 * 10\<rfloor> - 5),
        positioning = Fin (baseScore + of_int \<lfloor>random 3 * 10\<rfloor> - 5),
        touches = Fin (80 + of_int \<lfloor>random 4 * 60\<rfloor>),
        distance = Fin (6.0 + random 5 * 3.0),
        topSpeed = Fin (20.0 + random 6 * 8.0),
        passAccuracy = Fin (75 + of_int \<lfloor>random 7 * 20\<rfloor>),
        dominantFoot_right = Fin (60 + of_int \<lfloor>random 8 * 30\<rfloor>),
        dominantFoot_left = Fin (40 - of_int \<lfloor>random 9 * 30\<rfloor>) \<rparr>)"

section \<open>Player detection: attempts, fallback and normalisation\<close>

subsection \<open>String operations\<close>

text \<open>\<^verbatim>\<open>indexOf\<close> and \<^verbatim>\<open>lastIndexOf\<close> of a character; \<open>None\<close> stands for \<open>-1\<close>.\<close>

fun indexOf :: "string \<Rightarrow> char \<Rightarrow> nat option" where
  "indexOf [] c = None"
| "indexOf (d # s) c = (if d = c then Some 0 else map_option Suc (indexOf s c))"

definition lastIndexOf :: "string \<Rightarrow> char \<Rightarrow> nat option" where
  "lastIndexOf s c = map_option (\<lambda>i. length s - 1 - i) (indexOf (rev s) c)"

text \<open>\<^verbatim>\<open>s.substring(a, b)\<close>: the arguments are clamped to the length and swapped if \<open>a > b\<close>.\<close>

definition substring :: "string \<Rightarrow> nat \<Rightarrow> nat \<Rightarrow> string" where
  "substring s a b =
     (let lo = min (min a b) (length s); hi = min (max a b) (length s)
      in take (hi - lo) (drop lo s))"

subsection \<open>One attempt\<close>

text \<open>
  What the model call of one attempt yields: an exception before any text is available
  (rejected request, error status, no candidate), or the reply text.
\<close>

datatype model_reply = GenerationFailed | ReplyText string

record analysis =
  teamColors :: "json option"
  players :: "json list"

text \<open>
  The callback of \<^verbatim>\<open>analysisResult.players.filter\<close> in \<^verbatim>\<open>analyzeStaticFrameForPlayers\<close>,
  for a player that is not \<^verbatim>\<open>null\<close>.
\<close>

definition valid_player :: "json \<Rightarrow> bool" where
  "valid_player player =
     (if truthy (get_prop player ''isReferee'') then False
      else
        (let x = number_or (get_prop player ''x'') (Fin 0);
             y = number_or (get_prop player ''y'') (Fin 0);
             width = number_or (get_prop player ''width'') (Fin 0);
             height = number_or (get_prop player ''height'') (Fin 0)
         in if js_lt width (Fin 2) \<or> js_gt width (Fin 20) \<or>
               js_lt height (Fin 6) \<or> js_gt height (Fin 30) then False
            else if js_lt x (Fin 0) \<or> js_gt x (Fin 98) \<or>
                    js_lt y (Fin 0) \<or> js_gt y (Fin 98) then False
            else if js_gt (js_add x width) (Fin 100) \<or>
                    js_gt (js_add y height) (Fin 100) then False
            else
              (let confidence = number_or (get_prop player ''confidence'') (Fin 0)
               in if js_lt confidence (Fin 0.6) then False else True)))"

text \<open>The filter; the callback throws on a \<^verbatim>\<open>null\<close> element.\<close>

definition validPlayers :: "json list \<Rightarrow> json list option" where
  "validPlayers ps = (if JNull \<in> set ps then None else Some (filter valid_player ps))"

text \<open>
  The body of the \<^verbatim>\<open>try\<close> of one attempt of \<^verbatim>\<open>analyzeStaticFrameForPlayers\<close>: \<open>None\<close>
  when it throws, otherwise the analysis result with its players replaced by the valid
  ones.
\<close>

definition static_attempt :: "runtime \<Rightarrow> model_reply \<Rightarrow> analysis option" where
  "static_attempt rt reply =
     (case reply of
        GenerationFailed \<Rightarrow> None
      | ReplyText responseText \<Rightarrow>
          (case (indexOf responseText CHR ''{'', lastIndexOf responseText CHR ''}'') of
             (Some firstBrace, Some lastBrace) \<Rightarrow>
               (case JSON_parse rt (substring responseText firstBrace (lastBrace + 1)) of
                  None \<Rightarrow> None
                | Some analysisResult \<Rightarrow>
                    (case get_prop analysisResult ''players'' of
                       Some (JArr ps) \<Rightarrow>
                         (case validPlayers ps of
                            None \<Rightarrow> None
                          | Some valid \<Rightarrow>
                              if length valid > 0
                              then Some \<lparr> teamColors = get_prop analysisResult ''teamColors'',
                                          players = valid \<rparr>
                              else None)
                     | _ \<Rightarrow> None))
           | _ \<Rightarrow> None))"

text \<open>The same for \<^verbatim>\<open>analyzeVideoWithFilesAPI\<close>, which does not filter.\<close>

definition video_attempt :: "runtime \<Rightarrow> model_reply \<Rightarrow> analysis option" where
  "video_attempt rt reply =
     (case reply of
        GenerationFailed \<Rightarrow> None
      | ReplyText responseText \<Rightarrow>
          (case (indexOf responseText CHR ''{'', lastIndexOf responseText CHR ''}'') of
             (Some firstBrace, Some lastBrace) \<Rightarrow>
               (case JSON_parse rt (substring responseText firstBrace (lastBrace + 1)) of
                  None \<Rightarrow> None
                | Some analysisResult \<Rightarrow>
                    (case get_prop analysisResult ''players'' of
                       Some (JArr ps) \<Rightarrow>
                         if length ps > 0
                         then Some \<lparr> teamColors = get_prop analysisResult ''teamColors'',
                                     players = ps \<rparr>
                         else None
                     | _ \<Rightarrow> None))
           | _ \<Rightarrow> None))"

subsection \<open>Fallback configurations\<close>

definition static_player ::
    "real \<Rightarrow> real \<Rightarrow> real \<Rightarrow> real \<Rightarrow> real \<Rightarrow> real \<Rightarrow> string \<Rightarrow> string \<Rightarrow> string \<Rightarrow> jsnum \<Rightarrow> json" where
  "static_player i px py w h c jersey team color timestamp =
     JObj [(''id'', JNum (Fin i)), (''x'', JNum (Fin px)), (''y'', JNum (Fin py)),
           (''width'', JNum (Fin w)), (''height'', JNum (Fin h)),
           (''confidence'', JNum (Fin c)), (''jersey'', JStr jersey), (''team'', JStr team),
           (''teamColor'', JStr color), (''timestamp'', JNum timestamp),
           (''isReferee'', JBool False)]"

definition static_fallback :: "jsnum \<Rightarrow> analysis" where
  "static_fallback timestamp =
     \<lparr> teamColors = Some (JObj [(''home'', JStr ''Blue''), (''away'', JStr ''Red'')]),
       players =
         [static_player 1 15 20 8 20 0.88 ''10'' ''home'' ''Blue'' timestamp,
          static_player 2 70 30 7 18 0.85 ''7'' ''away'' ''Red'' timestamp,
          static_player 3 40 15 8 22 0.82 ''9'' ''home'' ''Blue'' timestamp,
          static_player 4 60 50 7 19 0.80 ''11'' ''away'' ''Red'' timestamp,
          static_player 5 25 65 8 21 0.78 ''8'' ''home'' ''Blue'' timestamp,
          static_player 6 80 10 7 17 0.83 ''3'' ''away'' ''Red'' timestamp] \<rparr>"

text \<open>The colour names of the large-video function ("blue", "red"), as UTF-8 bytes.\<close>

definition blue_zh :: string where
  "blue_zh = [CHR 0xE8, CHR 0x93, CHR 0x9D, CHR 0xE8, CHR 0x89, CHR 0xB2]"

definition red_zh :: string where
  "red_zh = [CHR 0xE7, CHR 0xBA, CHR 0xA2, CHR 0xE8, CHR 0x89, CHR 0xB2]"

definition video_player ::
    "real \<Rightarrow> real \<Rightarrow> real \<Rightarrow> real \<Rightarrow> string \<Rightarrow> string \<Rightarrow> string \<Rightarrow> real \<Rightarrow> json" where
  "video_player i px py c jersey team color t =
     JObj [(''id'', JNum (Fin i)), (''x'', JNum (Fin px)), (''y'', JNum (Fin py)),
           (''confidence'', JNum (Fin c)), (''jersey'', JStr jersey), (''team'', JStr team),
           (''teamColor'', JStr color), (''timestamp'', JNum (Fin t))]"

definition video_fallback :: analysis where
  "video_fallback =
     \<lparr> teamColors = Some (JObj [(''home'', JStr blue_zh), (''away'', JStr red_zh)]),
       players =
         [video_player 1 30 45 0.8 ''10'' ''home'' blue_zh 10,
          video_player 2 70 55 0.8 ''7'' ''away'' red_zh 12,
          video_player 3 50 35 0.7 ''9'' ''home'' blue_zh 8,
          video_player 4 80 25 0.7 ''11'' ''away'' red_zh 14] \<rparr>"

subsection \<open>The retry loops\<close>

text \<open>
  \<open>reply k\<close> is what the model call of the \<open>k\<close>-th attempt yields (\<open>k\<close> counts from 1, as
  \<^verbatim>\<open>attempts\<close> does). The loops return the analysis result (\<open>None\<close> if the variable is
  still \<^verbatim>\<open>undefined\<close>), the final value of \<^verbatim>\<open>attempts\<close> and the delays slept between
  attempts, in milliseconds.
\<close>

definition static_maxAttempts :: nat where
  "static_maxAttempts = 5"

definition video_maxAttempts :: nat where
  "video_maxAttempts = 3"

function static_loop ::
    "runtime \<Rightarrow> (nat \<Rightarrow> model_reply) \<Rightarrow> jsnum \<Rightarrow> nat \<Rightarrow> analysis option \<times> nat \<times> nat list" where
  "static_loop rt reply timestamp attempts =
     (if attempts < static_maxAttempts then
        (case static_attempt rt (reply (attempts + 1)) of
           Some analysisResult \<Rightarrow> (Some analysisResult, attempts + 1, [])
         | None \<Rightarrow>
             if attempts + 1 = static_maxAttempts
             then (Some (static_fallback timestamp), attempts + 1, [])
             else (case static_loop rt reply timestamp (attempts + 1) of
                     (r, n, delays) \<Rightarrow> (r, n, 2000 * (attempts + 1) # delays)))
      else (None, attempts, []))"
  by pat_completeness auto
termination
  by (relation "measure (\<lambda>(rt, reply, timestamp, attempts). static_maxAttempts - attempts)") auto

declare static_loop.simps [simp del]

function video_loop ::
    "runtime \<Rightarrow> (nat \<Rightarrow> model_reply) \<Rightarrow> nat \<Rightarrow> analysis option \<times> nat \<times> nat list" where
  "video_loop rt reply attempts =
     (if attempts < video_maxAttempts then
        (case video_attempt rt (reply (attempts + 1)) of
           Some analysisResult \<Rightarrow> (Some analysisResult, attempts + 1, [])
         | None \<Rightarrow>
             if attempts + 1 = video_maxAttempts
             then (Some video_fallback, attempts + 1, [])
             else (case video_loop rt reply (attempts + 1) of
                     (r, n, delays) \<Rightarrow> (r, n, 2000 * (attempts + 1) # delays)))
      else (None, attempts, []))"
  by pat_completeness auto
termination
  by (relation "measure (\<lambda>(rt, reply, attempts). video_maxAttempts - attempts)") auto

declare video_loop.simps [simp del]

subsection \<open>Normalisation of the detected players\<close>

text \<open>\<^verbatim>\<open>Math.max(lo, Math.min(hi, n))\<close>\<close>

definition clamp :: "real \<Rightarrow> real \<Rightarrow> jsnum \<Rightarrow> jsnum" where
  "clamp lo hi n = Math_max (Fin lo) (Math_min (Fin hi) n)"

text \<open>
  The number that \<^verbatim>\<open>Math.min\<close> reads from \<^verbatim>\<open>v + d\<close>, where \<open>d\<close> is a number: numeric
  addition for a number, a boolean or \<^verbatim>\<open>null\<close>, the runtime's reading of the
  concatenation otherwise.
\<close>

definition plus_as_number :: "runtime \<Rightarrow> json \<Rightarrow> real \<Rightarrow> jsnum" where
  "plus_as_number rt v d =
     (case v of
        JNum n \<Rightarrow> js_add n (Fin d)
      | JBool b \<Rightarrow> Fin ((if b then 1 else 0) + d)
      | JNull \<Rightarrow> Fin d
      | _ \<Rightarrow> concat_number rt v d)"

definition movement_timestamps :: "real list" where
  "movement_timestamps = [5, 10, 15, 20, 25, 30, 35]"

record position =
  pos_x :: jsnum
  pos_y :: jsnum
  pos_width :: jsnum
  pos_height :: jsnum

text \<open>
  The loop of \<^verbatim>\<open>generateRealisticMovementPatternWithBounds\<close>: \<open>n\<close> iterations are left,
  \<open>k\<close> is the number of calls of \<^verbatim>\<open>Math.random()\<close> made so far, and the current values
  are the arguments at first and numbers from the second iteration on.
\<close>

fun movement_loop ::
    "runtime \<Rightarrow> (nat \<Rightarrow> real) \<Rightarrow> nat \<Rightarrow> nat \<Rightarrow> json \<Rightarrow> json \<Rightarrow> json \<Rightarrow> json \<Rightarrow> position list" where
  "movement_loop rt random k 0 currentX currentY currentWidth currentHeight = []"
| "movement_loop rt random k (Suc n) currentX currentY currentWidth currentHeight =
     (let moveX = (random k - 0.5) * 15;
          moveY = (random (k + 1) - 0.5) * 10;
          sizeVariation = (random (k + 2) - 0.5) * 2;
          newX = clamp 5 95 (plus_as_number rt currentX moveX);
          newY = clamp 5 95 (plus_as_number rt currentY moveY);
          newWidth = clamp 5 20 (plus_as_number rt currentWidth sizeVariation);
          newHeight = clamp 10 30 (plus_as_number rt currentHeight sizeVariation)
      in \<lparr> pos_x = round_tenth newX, pos_y = round_tenth newY,
           pos_width = round_tenth newWidth, pos_height = round_tenth newHeight \<rparr>
         # movement_loop rt random (k + 3) n (JNum newX) (JNum newY) (JNum newWidth) (JNum newHeight))"

definition generateRealisticMovementPatternWithBounds ::
    "runtime \<Rightarrow> (nat \<Rightarrow> real) \<Rightarrow> nat \<Rightarrow> json \<Rightarrow> json \<Rightarrow> json \<Rightarrow> json \<Rightarrow> position list" where
  "generateRealisticMovementPatternWithBounds rt random k startX startY startWidth startHeight =
     movement_loop rt random k (length movement_timestamps) startX startY startWidth startHeight"

record detection =
  det_id :: json
  det_x :: jsnum
  det_y :: jsnum
  det_width :: jsnum
  det_height :: jsnum
  det_confidence :: jsnum
  det_jersey :: json
  det_team :: json
  det_teamColor :: json
  det_timestamp :: jsnum
  det_isReferee :: bool
  det_positions :: "position list"

text \<open>
  The callback of \<^verbatim>\<open>analysisResult.players.map\<close> in \<^verbatim>\<open>analyzeStaticFrameForPlayers\<close>, for
  a player that is not \<^verbatim>\<open>null\<close>. The player at \<open>index\<close> draws the random numbers
  \<open>21 * index\<close> to \<open>21 * index + 20\<close>. The field \<open>det_positions\<close> is
  \<^verbatim>\<open>movementPattern.positions\<close>; \<^verbatim>\<open>movementPattern.timestamps\<close> is the constant
  \<open>movement_timestamps\<close>.
\<close>

definition static_process ::
    "runtime \<Rightarrow> (nat \<Rightarrow> real) \<Rightarrow> json option \<Rightarrow> jsnum \<Rightarrow> nat \<Rightarrow> json \<Rightarrow> detection" where
  "static_process rt random colors timestamp index player =
     \<lparr> det_id = or_else (get_prop player ''id'') (JNum (Fin (real (index + 1)))),
       det_x = clamp 0 98 (number_or (get_prop player ''x'') (Fin 50)),
       det_y = clamp 0 98 (number_or (get_prop player ''y'') (Fin 50)),
       det_width = clamp 4 18 (number_or (get_prop player ''width'') (Fin 8)),
       det_height = clamp 8 28 (number_or (get_prop player ''height'') (Fin 18)),
       det_confidence = clamp 0.6 1 (number_or (get_prop player ''confidence'') (Fin 0.8)),
       det_jersey = or_else (get_prop player ''jersey'') (JStr (string_of_nat (index + 1))),
       det_team = or_else (get_prop player ''team'')
                    (JStr (if index mod 2 = 0 then ''home'' else ''away'')),
       det_teamColor =
         or_else (get_prop player ''teamColor'')
           (or_else (if get_prop player ''team'' = Some (JStr ''home'')
                     then opt_prop colors ''home'' else opt_prop colors ''away'')
              (JStr (if index mod 2 = 0 then ''Blue'' else ''Red''))),
       det_timestamp = timestamp,
       det_isReferee = False,
       det_positions =
         generateRealisticMovementPatternWithBounds rt random (21 * index)
           (or_else (get_prop player ''x'') (JNum (Fin 50)))
           (or_else (get_prop player ''y'') (JNum (Fin 50)))
           (or_else (get_prop player ''width'') (JNum (Fin 8)))
           (or_else (get_prop player ''height'') (JNum (Fin 18))) \<rparr>"

text \<open>The \<^verbatim>\<open>map\<close> over the players; its callback throws on a \<^verbatim>\<open>null\<close> element.\<close>

definition static_processedPlayers ::
    "runtime \<Rightarrow> (nat \<Rightarrow> real) \<Rightarrow> jsnum \<Rightarrow> analysis \<Rightarrow> detection list option" where
  "static_processedPlayers rt random timestamp analysisResult =
     (if JNull \<in> set (players analysisResult) then None
      else Some (map (\<lambda>(index, player).
                   static_process rt random (teamColors analysisResult) timestamp index player)
                 (enumerate 0 (players analysisResult))))"

datatype detection_error = ModelNotInitialized | DetectionFailed

text \<open>
  \<^verbatim>\<open>analyzeStaticFrameForPlayers(frameDataUrl, timestamp)\<close>. \<open>model_ready\<close> tells whether
  \<^verbatim>\<open>ensureModelInitialized\<close> returns; every exception ends in the outer \<^verbatim>\<open>catch\<close>, which
  throws again. The result is what the caller receives.
\<close>

definition analyzeStaticFrameForPlayers ::
    "runtime \<Rightarrow> (nat \<Rightarrow> real) \<Rightarrow> bool \<Rightarrow> (nat \<Rightarrow> model_reply) \<Rightarrow> jsnum \<Rightarrow>
     detection_error + detection list" where
  "analyzeStaticFrameForPlayers rt random model_ready reply timestamp =
     (if \<not> model_ready then Inl ModelNotInitialized
      else (case static_loop rt reply timestamp 0 of
              (None, n, delays) \<Rightarrow> Inl DetectionFailed
            | (Some analysisResult, n, delays) \<Rightarrow>
                (case static_processedPlayers rt random timestamp analysisResult of
                   None \<Rightarrow> Inl DetectionFailed
                 | Some processedPlayers \<Rightarrow> Inr processedPlayers)))"

text \<open>The number of attempts the loop makes.\<close>

definition static_attempts :: "runtime \<Rightarrow> (nat \<Rightarrow> model_reply) \<Rightarrow> jsnum \<Rightarrow> nat" where
  "static_attempts rt reply timestamp = fst (snd (static_loop rt reply timestamp 0))"

subsection \<open>The same for the large-video function\<close>

record video_detection =
  vd_id :: json
  vd_x :: jsnum
  vd_y :: jsnum
  vd_confidence :: jsnum
  vd_jersey :: json
  vd_team :: json
  vd_teamColor :: json
  vd_timestamp :: jsnum
  vd_positions :: "(jsnum \<times> jsnum) list"

text \<open>
  \<^verbatim>\<open>Array.from({ length: 7 }, ...)\<close>: each position draws two random numbers, starting
  with number \<open>k\<close>.
\<close>

fun video_positions ::
    "runtime \<Rightarrow> (nat \<Rightarrow> real) \<Rightarrow> nat \<Rightarrow> nat \<Rightarrow> json \<Rightarrow> json \<Rightarrow> (jsnum \<times> jsnum) list" where
  "video_positions rt random k 0 px py = []"
| "video_positions rt random k (Suc n) px py =
     (clamp 5 95 (plus_as_number rt px ((random k - 0.5) * 15)),
      clamp 5 95 (plus_as_number rt py ((random (k + 1) - 0.5) * 10)))
     # video_positions rt random (k + 2) n px py"

definition video_process ::
    "runtime \<Rightarrow> (nat \<Rightarrow> real) \<Rightarrow> json option \<Rightarrow> nat \<Rightarrow> json \<Rightarrow> video_detection" where
  "video_process rt random colors index player =
     \<lparr> vd_id = or_else (get_prop player ''id'') (JNum (Fin (real (index + 1)))),
       vd_x = (case get_prop player ''x'' of
                 Some (JNum n) \<Rightarrow> clamp 0 100 n | _ \<Rightarrow> Fin 50),
       vd_y = (case get_prop player ''y'' of
                 Some (JNum n) \<Rightarrow> clamp 0 100 n | _ \<Rightarrow> Fin 50),
       vd_confidence = (case get_prop player ''confidence'' of
                          Some (JNum n) \<Rightarrow> clamp 0 1 n | _ \<Rightarrow> Fin 0.8),
       vd_jersey = or_else (get_prop player ''jersey'') (JStr (string_of_nat (index + 1))),
       vd_team = or_else (get_prop player ''team'')
                   (JStr (if index mod 2 = 0 then ''home'' else ''away'')),
       vd_teamColor =
         or_else (get_prop player ''teamColor'')
           (or_else (if get_prop player ''team'' = Some (JStr ''home'')
                     then opt_prop colors ''home'' else opt_prop colors ''away'')
              (JStr (if index mod 2 = 0 then blue_zh else red_zh))),
       vd_timestamp = number_or (get_prop player ''timestamp'') (Fin 0),
       vd_positions =
         video_positions rt random (14 * index) 7
           (or_else (get_prop player ''x'') (JNum (Fin 50)))
           (or_else (get_prop player ''y'') (JNum (Fin 50))) \<rparr>"

record video_result =
  vr_players :: "video_detection list"
  vr_teamColors :: json

definition analyzeVideoWithFilesAPI ::
    "runtime \<Rightarrow> (nat \<Rightarrow> real) \<Rightarrow> (nat \<Rightarrow> model_reply) \<Rightarrow> detection_error + video_result" where
  "analyzeVideoWithFilesAPI rt random reply =
     (case video_loop rt reply 0 of
        (None, n, delays) \<Rightarrow> Inl DetectionFailed
      | (Some analysisResult, n, delays) \<Rightarrow>
          if JNull \<in> set (players analysisResult) then Inl DetectionFailed
          else Inr \<lparr>
            vr_players =
              map (\<lambda>(index, player).
                     video_process rt random (teamColors analysisResult) index player)
                  (enumerate 0 (players analysisResult)),
            vr_teamColors =
              or_else (teamColors analysisResult)
                (JObj [(''home'', JStr blue_zh), (''away'', JStr red_zh)]) \<rparr>)"

definition video_attempts :: "runtime \<Rightarrow> (nat \<Rightarrow> model_reply) \<Rightarrow> nat" where
  "video_attempts rt reply = fst (snd (video_loop rt reply 0))"

section \<open>Extraction of JSON from the reply text\<close>

subsection \<open>Regular expressions with JavaScript's backtracking order\<close>

text \<open>
  The constructs the regular expressions of \<^verbatim>\<open>extractJsonFromText\<close> use: a character, a
  character class, sequence, the greedy and the lazy star, the greedy option, the
  lookahead \<^verbatim>\<open>(?=r)\<close> and the end of input \<^verbatim>\<open>$\<close>.
\<close>

datatype regex =
    Eps
  | Chr char
  | Cls "char \<Rightarrow> bool"
  | Seq regex regex
  | Star regex
  | LazyStar regex
  | Opt regex
  | Ahead regex
  | EndOfInput

text \<open>
  \<open>rmatch n r s\<close> lists what is left of \<open>s\<close> after each way of matching \<open>r\<close> at its start,
  in the order in which a backtracking matcher tries them: the first element is the
  match the engine reports. A star does not repeat an iteration that consumed nothing.
  The fuel \<open>n\<close> bounds the iterations of a star; each iteration consumes a character,
  so the length of the input is enough.
\<close>

fun rmatch :: "nat \<Rightarrow> regex \<Rightarrow> string \<Rightarrow> string list" where
  "rmatch n Eps s = [s]"
| "rmatch n (Chr c) s = (case s of [] \<Rightarrow> [] | d # t \<Rightarrow> if d = c then [t] else [])"
| "rmatch n (Cls P) s = (case s of [] \<Rightarrow> [] | d # t \<Rightarrow> if P d then [t] else [])"
| "rmatch n (Seq a b) s = concat (map (rmatch n b) (rmatch n a s))"
| "rmatch 0 (Star a) s = [s]"
| "rmatch (Suc n) (Star a) s =
     concat (map (\<lambda>t. if length t < length s then rmatch n (Star a) t else [])
                 (rmatch (Suc n) a s)) @ [s]"
| "rmatch 0 (LazyStar a) s = [s]"
| "rmatch (Suc n) (LazyStar a) s =
     s # concat (map (\<lambda>t. if length t < length s then rmatch n (LazyStar a) t else [])
                     (rmatch (Suc n) a s))"
| "rmatch n (Opt a) s = rmatch n a s @ [s]"
| "rmatch n (Ahead a) s = (if rmatch n a s = [] then [] else [s])"
| "rmatch n EndOfInput s = (if s = [] then [s] else [])"

fun str :: "string \<Rightarrow> regex" where
  "str [] = Eps"
| "str (c # cs) = Seq (Chr c) (str cs)"

text \<open>
  A pattern is written as three consecutive parts, the middle one being its capture
  group 1 (the whole pattern when it has no group). \<open>match_at\<close> matches at the start of
  \<open>s\<close> and returns the matched text \<^verbatim>\<open>m[0]\<close> and the group \<^verbatim>\<open>m[1]\<close>.
\<close>

definition match_at :: "regex \<Rightarrow> regex \<Rightarrow> regex \<Rightarrow> string \<Rightarrow> (string \<times> string) option" where
  "match_at r1 r2 r3 s =
     (let n = length s in
      case concat (map (\<lambda>ra. concat (map (\<lambda>rg. map (\<lambda>rb. (ra, rg, rb)) (rmatch n r3 rg))
                                           (rmatch n r2 ra)))
                       (rmatch n r1 s)) of
        [] \<Rightarrow> None
      | (ra, rg, rb) # _ \<Rightarrow>
          Some (take (length s - length rb) s, take (length ra - length rg) ra))"

text \<open>
  \<^verbatim>\<open>text.match(pattern)\<close> without the \<^verbatim>\<open>g\<close> flag: the match at the leftmost position
  that has one. The result also carries the text before the match and the text after.
\<close>

fun regex_exec ::
    "regex \<Rightarrow> regex \<Rightarrow> regex \<Rightarrow> string \<Rightarrow> string \<Rightarrow> (string \<times> string \<times> string \<times> string) option" where
  "regex_exec r1 r2 r3 skipped s =
     (case match_at r1 r2 r3 s of
        Some (whole, grp) \<Rightarrow> Some (rev skipped, whole, grp, drop (length whole) s)
      | None \<Rightarrow> (case s of [] \<Rightarrow> None
                 | c # t \<Rightarrow> regex_exec r1 r2 r3 (c # skipped) t))"

definition text_match :: "regex \<Rightarrow> regex \<Rightarrow> regex \<Rightarrow> string \<Rightarrow> (string \<times> string) option" where
  "text_match r1 r2 r3 s =
     map_option (\<lambda>(pre, whole, grp, post). (whole, grp)) (regex_exec r1 r2 r3 [] s)"

text \<open>\<^verbatim>\<open>s.replace(/literal/g, '')\<close>: every occurrence, from left to right.\<close>

fun remove_all :: "string \<Rightarrow> string \<Rightarrow> string" where
  "remove_all pat [] = []"
| "remove_all pat (c # s) =
     (if pat \<noteq> [] \<and> take (length pat) (c # s) = pat
      then remove_all pat (drop (length pat - 1) s)
      else c # remove_all pat s)"

text \<open>\<^verbatim>\<open>s.replace(/^r/, repl)\<close>: the pattern is anchored at the start.\<close>

definition replace_at_start :: "regex \<Rightarrow> string \<Rightarrow> string \<Rightarrow> string" where
  "replace_at_start r repl s =
     (case match_at Eps r Eps s of None \<Rightarrow> s | Some (whole, grp) \<Rightarrow> repl @ drop (length whole) s)"

text \<open>\<^verbatim>\<open>s.replace(r, repl)\<close>: the first match.\<close>

definition replace_first :: "regex \<Rightarrow> string \<Rightarrow> string \<Rightarrow> string" where
  "replace_first r repl s =
     (case regex_exec Eps r Eps [] s of
        None \<Rightarrow> s
      | Some (pre, whole, grp, post) \<Rightarrow> pre @ repl @ post)"

definition trim :: "string \<Rightarrow> string" where
  "trim s = rev (dropWhile js_space (rev (dropWhile js_space s)))"

text \<open>The character classes.\<close>

definition any_char :: "char \<Rightarrow> bool" where
  "any_char c = True"

definition no_brace :: "char \<Rightarrow> bool" where
  "no_brace c \<longleftrightarrow> c \<noteq> CHR ''{'' \<and> c \<noteq> CHR ''}''"

definition word_char :: "char \<Rightarrow> bool" where
  "word_char c \<longleftrightarrow>
     c \<in> set ''abcdefghijklmnopqrstuvwxyzABCDEFGHIJKLMNOPQRSTUVWXYZ0123456789_''"

definition word_or_space :: "char \<Rightarrow> bool" where
  "word_or_space c \<longleftrightarrow> word_char c \<or> js_space c"

text \<open>\<^verbatim>\<open>/\{[\s\S]*\}/\<close>\<close>

definition first_to_last_brace :: regex where
  "first_to_last_brace = Seq (Chr CHR ''{'') (Seq (Star (Cls any_char)) (Chr CHR ''}''))"

text \<open>\<^verbatim>\<open>/```(?:json)?\s*(\{[\s\S]*?\})\s*```/\<close>, in its three parts.\<close>

definition fence_open :: regex where
  "fence_open = Seq (str ''```'') (Seq (Opt (str ''json'')) (Star (Cls js_space)))"

definition fenced_object :: regex where
  "fenced_object = Seq (Chr CHR ''{'') (Seq (LazyStar (Cls any_char)) (Chr CHR ''}''))"

definition fence_close :: regex where
  "fence_close = Seq (Star (Cls js_space)) (str ''```'')"

text \<open>\<^verbatim>\<open>/\{[^{}]*(?:\{[^{}]*\}[^{}]*)*\}/\<close>\<close>

definition nested_object :: regex where
  "nested_object =
     Seq (Chr CHR ''{'')
       (Seq (Star (Cls no_brace))
          (Seq (Star (Seq (Chr CHR ''{'')
                        (Seq (Star (Cls no_brace))
                           (Seq (Chr CHR ''}'') (Star (Cls no_brace))))))
             (Chr CHR ''}'')))"

text \<open>\<^verbatim>\<open>/^\s*[\w\s]*?(?=\{)/\<close> and \<^verbatim>\<open>/\}[\s\S]*$/\<close>\<close>

definition leading_prose :: regex where
  "leading_prose =
     Seq (Star (Cls js_space)) (Seq (LazyStar (Cls word_or_space)) (Ahead (Chr CHR ''{'')))"

definition brace_to_end :: regex where
  "brace_to_end = Seq (Chr CHR ''}'') (Seq (Star (Cls any_char)) EndOfInput)"

subsection \<open>The extractors\<close>

text \<open>
  \<^verbatim>\<open>extractJsonFromText\<close> of the performance-analysis function: four methods in turn, each
  parsing what it found; \<open>None\<close> when the function throws.
\<close>

definition method1 :: "runtime \<Rightarrow> string \<Rightarrow> json option" where
  "method1 rt text =
     (case text_match Eps first_to_last_brace Eps text of
        None \<Rightarrow> None
      | Some (whole, grp) \<Rightarrow> JSON_parse rt whole)"

definition method2 :: "runtime \<Rightarrow> string \<Rightarrow> json option" where
  "method2 rt text =
     (case text_match fence_open fenced_object fence_close text of
        None \<Rightarrow> None
      | Some (whole, grp) \<Rightarrow> JSON_parse rt grp)"

definition method3 :: "runtime \<Rightarrow> string \<Rightarrow> json option" where
  "method3 rt text =
     (case text_match Eps nested_object Eps text of
        None \<Rightarrow> None
      | Some (whole, grp) \<Rightarrow> JSON_parse rt whole)"

definition cleanedText :: "string \<Rightarrow> string" where
  "cleanedText text =
     trim (replace_first brace_to_end ''}''
            (replace_at_start leading_prose []
               (remove_all ''```'' (remove_all ''```json'' text))))"

definition method4 :: "runtime \<Rightarrow> string \<Rightarrow> json option" where
  "method4 rt text = JSON_parse rt (cleanedText text)"

definition extractJsonFromText :: "runtime \<Rightarrow> string \<Rightarrow> json option" where
  "extractJsonFromText rt text =
     (case method1 rt text of
        Some parsed \<Rightarrow> Some parsed
      | None \<Rightarrow>
          (case method2 rt text of
             Some parsed \<Rightarrow> Some parsed
           | None \<Rightarrow>
               (case method3 rt text of
                  Some parsed \<Rightarrow> Some parsed
                | None \<Rightarrow> method4 rt text)))"

text \<open>
  \<^verbatim>\<open>extractJsonFromString\<close> of the client: the text from the first \<^verbatim>\<open>{\<close> to the last
  \<^verbatim>\<open>}\<close>; \<open>None\<close> when it throws.
\<close>

definition extractJsonFromString :: "string \<Rightarrow> string option" where
  "extractJsonFromString text =
     (case (indexOf text CHR ''{'', lastIndexOf text CHR ''}'') of
        (Some firstBrace, Some lastBrace) \<Rightarrow>
          if firstBrace \<ge> lastBrace then None
          else Some (substring text firstBrace (lastBrace + 1))
      | _ \<Rightarrow> None)"

subsection \<open>Auxiliary notions for the proofs\<close>

text \<open>
  The suffixes of a text, the shortest first: what is left after each way of matching
  the greedy \<^verbatim>\<open>[\s\S]*\<close>, in the order tried.
\<close>

fun suffixes_shortest_first :: "string \<Rightarrow> string list" where
  "suffixes_shortest_first [] = [[]]"
| "suffixes_shortest_first (c # t) = suffixes_shortest_first t @ [c # t]"

subsection \<open>A model of \<^verbatim>\<open>JSON.parse\<close>\<close>

text \<open>
  The JSON grammar (ECMA-404) on strings of 8-bit code units, for the concrete texts of
  the statements below. A number is read as the exact value of its decimal literal
  (JavaScript rounds it to the nearest double). An escape \<^verbatim>\<open>\uXXXX\<close> above \<open>00FF\<close> does
  not fit a code unit of the model and is cut to its low byte. \<open>None\<close> stands for the
  \<^verbatim>\<open>SyntaxError\<close>.
\<close>

definition json_space :: "char \<Rightarrow> bool" where
  "json_space c \<longleftrightarrow> c \<in> set [CHR 0x20, CHR 0x09, CHR 0x0A, CHR 0x0D]"

definition skip_ws :: "string \<Rightarrow> string" where
  "skip_ws s = dropWhile json_space s"

definition is_digit :: "char \<Rightarrow> bool" where
  "is_digit c \<longleftrightarrow> c \<in> set ''0123456789''"

text \<open>The value of a decimal digit: its position among the digits.\<close>

definition digit_value :: "char \<Rightarrow> nat" where
  "digit_value c = (case indexOf ''0123456789'' c of Some i \<Rightarrow> i | None \<Rightarrow> 0)"

definition nat_of_digits :: "string \<Rightarrow> nat" where
  "nat_of_digits ds = foldl (\<lambda>n c. 10 * n + digit_value c) 0 ds"

definition hex_value :: "char \<Rightarrow> nat option" where
  "hex_value c =
     (if is_digit c then Some (digit_value c)
      else if c \<in> set ''aA'' then Some 10 else if c \<in> set ''bB'' then Some 11
      else if c \<in> set ''cC'' then Some 12 else if c \<in> set ''dD'' then Some 13
      else if c \<in> set ''eE'' then Some 14 else if c \<in> set ''fF'' then Some 15
      else None)"

definition escape_char :: "char \<Rightarrow> char option" where
  "escape_char e =
     (if e = CHR 0x22 then Some (CHR 0x22)
      else if e = CHR 0x5C then Some (CHR 0x5C)
      else if e = CHR ''/'' then Some (CHR ''/'')
      else if e = CHR ''b'' then Some (CHR 0x08)
      else if e = CHR ''f'' then Some (CHR 0x0C)
      else if e = CHR ''n'' then Some (CHR 0x0A)
      else if e = CHR ''r'' then Some (CHR 0x0D)
      else if e = CHR ''t'' then Some (CHR 0x09)
      else None)"

text \<open>
  The characters of a string after its opening quote, up to the closing quote; \<open>acc\<close>
  holds the characters read so far, last first.
\<close>

fun parse_chars :: "string \<Rightarrow> string \<Rightarrow> (string \<times> string) option" where
  "parse_chars acc [] = None"
| "parse_chars acc [c] = (if c = CHR 0x22 then Some (rev acc, []) else None)"
| "parse_chars acc (c # e # s) =
     (if c = CHR 0x22 then Some (rev acc, e # s)
      else if c = CHR 0x5C then
        (if e = CHR ''u'' then
           (case s of
              h1 # h2 # h3 # h4 # s' \<Rightarrow>
                (case (hex_value h1, hex_value h2, hex_value h3, hex_value h4) of
                   (Some a, Some b, Some c', Some d) \<Rightarrow>
                     parse_chars (char_of (16 * c' + d) # acc) s'
                 | _ \<Rightarrow> None)
            | _ \<Rightarrow> None)
         else (case escape_char e of
                 None \<Rightarrow> None
               | Some ch \<Rightarrow> parse_chars (ch # acc) s))
      else if (of_char c :: nat) < 32 then None
      else parse_chars (c # acc) (e # s))"

text \<open>
  \<^verbatim>\<open>-? (0 | [1-9][0-9]*) (. [0-9]+)? ([eE] [+-]? [0-9]+)?\<close>
\<close>

definition parse_int_part :: "string \<Rightarrow> (string \<times> string) option" where
  "parse_int_part s =
     (case s of
        [] \<Rightarrow> None
      | c # t \<Rightarrow>
          if c = CHR ''0'' then Some ([c], t)
          else if is_digit c then Some (takeWhile is_digit s, dropWhile is_digit s)
          else None)"

definition parse_frac_part :: "string \<Rightarrow> (string \<times> string) option" where
  "parse_frac_part s =
     (case s of
        [] \<Rightarrow> Some ([], s)
      | c # t \<Rightarrow>
          if c = CHR ''.'' then
            (if takeWhile is_digit t = [] then None
             else Some (takeWhile is_digit t, dropWhile is_digit t))
          else Some ([], s))"

definition parse_exp_part :: "string \<Rightarrow> ((bool \<times> string) \<times> string) option" where
  "parse_exp_part s =
     (case s of
        [] \<Rightarrow> Some ((False, []), s)
      | c # t \<Rightarrow>
          if c = CHR ''e'' \<or> c = CHR ''E'' then
            (let (neg, u) = (case t of
                               [] \<Rightarrow> (False, t)
                             | g # v \<Rightarrow> if g = CHR ''-'' then (True, v)
                                        else if g = CHR ''+'' then (False, v)
                                        else (False, t))
             in if takeWhile is_digit u = [] then None
                else Some ((neg, takeWhile is_digit u), dropWhile is_digit u))
          else Some ((False, []), s))"

definition number_value :: "bool \<Rightarrow> string \<Rightarrow> string \<Rightarrow> bool \<Rightarrow> string \<Rightarrow> real" where
  "number_value neg ip fp eneg ep =
     (let m = real (nat_of_digits ip) + real (nat_of_digits fp) / 10 ^ length fp;
          scaled = (if eneg then m / 10 ^ nat_of_digits ep else m * 10 ^ nat_of_digits ep)
      in if neg then - scaled else scaled)"

definition parse_number :: "string \<Rightarrow> (json \<times> string) option" where
  "parse_number s =
     (let (neg, s1) = (case s of
                         [] \<Rightarrow> (False, s)
                       | c # t \<Rightarrow> if c = CHR ''-'' then (True, t) else (False, s))
      in case parse_int_part s1 of
           None \<Rightarrow> None
         | Some (ip, s2) \<Rightarrow>
             (case parse_frac_part s2 of
                None \<Rightarrow> None
              | Some (fp, s3) \<Rightarrow>
                  (case parse_exp_part s3 of
                     None \<Rightarrow> None
                   | Some ((eneg, ep), s4) \<Rightarrow>
                       Some (JNum (Fin (number_value neg ip fp eneg ep)), s4))))"

definition parse_literal :: "string \<Rightarrow> json \<Rightarrow> string \<Rightarrow> (json \<times> string) option" where
  "parse_literal word v s =
     (if take (length word) s = word then Some (v, drop (length word) s) else None)"

text \<open>
  A value, the elements of an array after its \<^verbatim>\<open>[\<close> and the members of an object
  after its \<^verbatim>\<open>{\<close>, all starting at a token. The first argument bounds the depth of
  the recursion; twice the length of the text is enough, since each call consumes a
  character before the next two calls.
\<close>

fun parse_value :: "nat \<Rightarrow> string \<Rightarrow> (json \<times> string) option"
  and parse_elements :: "nat \<Rightarrow> string \<Rightarrow> (json list \<times> string) option"
  and parse_members :: "nat \<Rightarrow> string \<Rightarrow> ((string \<times> json) list \<times> string) option" where
  "parse_value 0 s = None"
| "parse_value (Suc n) s =
     (case s of
        [] \<Rightarrow> None
      | c # t \<Rightarrow>
          if c = CHR ''{'' then
            (case skip_ws t of
               [] \<Rightarrow> None
             | d # u \<Rightarrow>
                 if d = CHR ''}'' then Some (JObj [], u)
                 else map_option (\<lambda>(ms, r). (JObj ms, r)) (parse_members n (d # u)))
          else if c = CHR ''['' then
            (case skip_ws t of
               [] \<Rightarrow> None
             | d # u \<Rightarrow>
                 if d = CHR '']'' then Some (JArr [], u)
                 else map_option (\<lambda>(vs, r). (JArr vs, r)) (parse_elements n (d # u)))
          else if c = CHR 0x22 then map_option (\<lambda>(k, r). (JStr k, r)) (parse_chars [] t)
          else if c = CHR ''t'' then parse_literal ''true'' (JBool True) s
          else if c = CHR ''f'' then parse_literal ''false'' (JBool False) s
          else if c = CHR ''n'' then parse_literal ''null'' JNull s
          else parse_number s)"
| "parse_elements 0 s = None"
| "parse_elements (Suc n) s =
     (case parse_value n s of
        None \<Rightarrow> None
      | Some (v, r) \<Rightarrow>
          (case skip_ws r of
             [] \<Rightarrow> None
           | c # t \<Rightarrow>
               if c = CHR '']'' then Some ([v], t)
               else if c = CHR '','' then
                 map_option (\<lambda>(vs, r'). (v # vs, r')) (parse_elements n (skip_ws t))
               else None))"
| "parse_members 0 s = None"
| "parse_members (Suc n) s =
     (case s of
        [] \<Rightarrow> None
      | q # t \<Rightarrow>
          if q \<noteq> CHR 0x22 then None
          else (case parse_chars [] t of
                  None \<Rightarrow> None
                | Some (k, r) \<Rightarrow>
                    (case skip_ws r of
                       [] \<Rightarrow> None
                     | c # u \<Rightarrow>
                         if c \<noteq> CHR '':'' then None
                         else (case parse_value n (skip_ws u) of
                                 None \<Rightarrow> None
                               | Some (v, r') \<Rightarrow>
                                   (case skip_ws r' of
                                      [] \<Rightarrow> None
                                    | e # w \<Rightarrow>
                                        if e = CHR ''}'' then Some ([(k, v)], w)
                                        else if e = CHR '','' then
                                          map_option (\<lambda>(ms, r''). ((k, v) # ms, r''))
                                            (parse_members n (skip_ws w))
                                        else None)))))"

definition json_parse :: "string \<Rightarrow> json option" where
  "json_parse s =
     (case parse_value (2 * length s + 2) (skip_ws s) of
        None \<Rightarrow> None
      | Some (v, r) \<Rightarrow> if skip_ws r = [] then Some v else None)"

text \<open>
  The runtime of the concrete evaluations: \<open>json_parse\<close> for \<^verbatim>\<open>JSON.parse\<close>. The
  evaluations are all at clock 0, where \<^verbatim>\<open>toISOString\<close> is the epoch; they convert no string
  that is a numeral (\<^verbatim>\<open>Number\<close> of any other non-empty word is \<^verbatim>\<open>NaN\<close>), add no number to a
  string and test no date.
\<close>

definition model_runtime :: runtime where
  "model_runtime = \<lparr> JSON_parse = json_parse, to_number = (\<lambda>v. NaN),
                      concat_number = (\<lambda>v d. NaN),
                      date_parses = (\<lambda>s. False),
                      toISOString = (\<lambda>t. ''1970-01-01T00:00:00.000Z'') \<rparr>"

section \<open>Reply texts used in the statements\<close>

text \<open>
  A reply that lists exactly the six players of the static-frame fallback, for a frame at
  timestamp 10.
\<close>

definition fallback_like_reply :: string where
  \<open>fallback_like_reply =
     ''{"teamColors":{"home":"Blue","away":"Red"},"players":['' @
     ''{"id":1,"x":15,"y":20,"width":8,"height":20,"confidence":0.88,"jersey":"10","team":"home","teamColor":"Blue","timestamp":10,"isReferee":false},'' @
     ''{"id":2,"x":70,"y":30,"width":7,"height":18,"confidence":0.85,"jersey":"7","team":"away","teamColor":"Red","timestamp":10,"isReferee":false},'' @
     ''{"id":3,"x":40,"y":15,"width":8,"height":22,"confidence":0.82,"jersey":"9","team":"home","teamColor":"Blue","timestamp":10,"isReferee":false},'' @
     ''{"id":4,"x":60,"y":50,"width":7,"height":19,"confidence":0.80,"jersey":"11","team":"away","teamColor":"Red","timestamp":10,"isReferee":false},'' @
     ''{"id":5,"x":25,"y":65,"width":8,"height":21,"confidence":0.78,"jersey":"8","team":"home","teamColor":"Blue","timestamp":10,"isReferee":false},'' @
     ''{"id":6,"x":80,"y":10,"width":7,"height":17,"confidence":0.83,"jersey":"3","team":"away","teamColor":"Red","timestamp":10,"isReferee":false}'' @
     '']}''\<close>



text \<open>A candidate inside the frame, one at the right edge with a narrow box, and a referee.\<close>

definition inside_candidate :: json where
  "inside_candidate =
     JObj [(''x'', JNum (Fin 20)), (''y'', JNum (Fin 12)), (''width'', JNum (Fin 8)),
           (''height'', JNum (Fin 18)), (''confidence'', JNum (Fin 0.9))]"

definition narrow_candidate :: json where
  "narrow_candidate =
     JObj [(''x'', JNum (Fin 97)), (''y'', JNum (Fin 12)), (''width'', JNum (Fin 3)),
           (''height'', JNum (Fin 18)), (''confidence'', JNum (Fin 0.9))]"

definition referee_candidate :: json where
  "referee_candidate =
     JObj [(''x'', JNum (Fin 10)), (''y'', JNum (Fin 10)), (''width'', JNum (Fin 8)),
           (''height'', JNum (Fin 18)), (''confidence'', JNum (Fin 0.9)),
           (''isReferee'', JBool True)]"

definition referee_reply :: string where
  \<open>referee_reply =
     ''{"players":[{"x":10,"y":10,"width":8,"height":18,"confidence":0.9,"isReferee":true},'' @
     ''{"x":20,"y":12,"width":8,"height":18,"confidence":0.9}]}''\<close>

text \<open>A model call that fails at every attempt.\<close>

definition always_failing :: "nat \<Rightarrow> model_reply" where
  "always_failing k = GenerationFailed"

text \<open>A model call that answers every attempt with the reply above.\<close>

definition fallback_like_replies :: "nat \<Rightarrow> model_reply" where
  "fallback_like_replies k = ReplyText fallback_like_reply"

text \<open>Two sequences of random numbers: all 0, and all one half.\<close>

definition low_random :: "nat \<Rightarrow> real" where
  "low_random k = 0"

definition steady_random :: "nat \<Rightarrow> real" where
  "steady_random k = 1 / 2"

text \<open>
  A fenced reply around the object \<^verbatim>\<open>{"a":1}\<close>, and a reply whose prose has braces of its
  own around the same object.
\<close>

definition small_object :: string where
  \<open>small_object = ''{"a":1}''\<close>

definition fenced_prefix :: string where
  \<open>fenced_prefix = ''Here you go: ```json ''\<close>

definition fenced_suffix :: string where
  \<open>fenced_suffix = '' ``` Done.''\<close>

definition braced_prose_reply :: string where
  \<open>braced_prose_reply = ''Set {x} to {"a":1}''\<close>



section \<open>Properties of the chunked upload\<close>

lemma chunk_loop_all_ok:
  "i < chunks \<Longrightarrow> (\<And>j. i \<le> j \<Longrightarrow> j < chunks \<Longrightarrow> ok j) \<Longrightarrow>
   chunk_loop ok fileSize chunks i =
     (Finalized, map (chunk_request fileSize chunks) [i..<chunks])"
proof (induction ok fileSize chunks i rule: chunk_loop.induct)
  case (1 ok fileSize chunks i)
  have ok: "ok i" using "1.prems" by simp
  show ?case
  proof (cases "int i = int chunks - 1")
    case True
    then have "chunks = Suc i" by linarith
    then show ?thesis using ok
      by (subst chunk_loop.simps) (simp add: Let_def)
  next
    case False
    then have lt: "i + 1 < chunks" using "1.prems"(1) by linarith
    have ih: "chunk_loop ok fileSize chunks (i + 1) =
        (Finalized, map (chunk_request fileSize chunks) [i + 1..<chunks])"
      using "1.IH" [OF "1.prems"(1) refl _ False lt] ok "1.prems"(2) by simp
    have "[i..<chunks] = i # [i + 1..<chunks]"
      using "1.prems"(1) by (simp add: upt_conv_Cons)
    then show ?thesis using ok False "1.prems"(1) ih
      by (subst chunk_loop.simps) (simp add: Let_def)
  qed
qed

lemma chunk_count_pos: "MAX_CHUNK_SIZE < fileSize \<Longrightarrow> 2 \<le> chunk_count fileSize"
  unfolding chunk_count_def MAX_CHUNK_SIZE_def
  by (simp add: le_nat_iff  less_ceiling_iff) 

lemma chunk_start_lt:
  assumes "i < chunk_count fileSize"
  shows "i * MAX_CHUNK_SIZE < fileSize"
proof -
  have "int i < \<lceil>real fileSize / real MAX_CHUNK_SIZE\<rceil>"
    using assms unfolding chunk_count_def by linarith
  then have "real i < real fileSize / real MAX_CHUNK_SIZE"
    by (simp add: less_ceiling_iff)
  then have "real i * real MAX_CHUNK_SIZE < real fileSize"
    by (simp add: pos_less_divide_eq MAX_CHUNK_SIZE_def)
  then show ?thesis
    by (metis of_nat_less_iff of_nat_mult)
qed

lemma chunk_full_before_last:
  assumes "i + 1 < chunk_count fileSize"
  shows "(i + 1) * MAX_CHUNK_SIZE < fileSize"
  using chunk_start_lt [OF assms] .

lemma chunk_last_covers:
  assumes "0 < chunk_count fileSize"
  shows "fileSize \<le> chunk_count fileSize * MAX_CHUNK_SIZE"
proof -
  have "real fileSize / real MAX_CHUNK_SIZE \<le> of_int \<lceil>real fileSize / real MAX_CHUNK_SIZE\<rceil>"
    by (rule le_of_int_ceiling)
  also have "\<dots> = real (chunk_count fileSize)"
    unfolding chunk_count_def using assms
    by (simp add: chunk_count_def)
  finally have "real fileSize \<le> real (chunk_count fileSize) * real MAX_CHUNK_SIZE"
    by (simp add: pos_divide_le_eq MAX_CHUNK_SIZE_def)
  then show ?thesis
    by (metis of_nat_le_iff of_nat_mult)
qed


lemma put_requests_map_ChunkPUT: "put_requests (map (ChunkPUT \<circ> f) xs) = map f xs"
  by (induction xs) simp_all

lemma put_requests_status: "put_requests (status_requests acts) = []"
  by (induction acts rule: status_requests.induct) simp_all

lemma put_requests_append: "put_requests (xs @ ys) = put_requests xs @ put_requests ys"
  by (induction xs rule: put_requests.induct) simp_all

lemma put_requests_after_finalize:
  "put_requests (snd (after_finalize env sent)) = put_requests sent"
  by (simp add: after_finalize_def put_requests_append put_requests_status
      split: prod.splits wait_result.splits)

lemma upload_puts_all_ok:
  assumes "MAX_CHUNK_SIZE < fileSize" "metadata_ok env" "upload_url_present env"
    and "\<forall>i < chunk_count fileSize. put_ok env i"
  shows "put_requests (snd (uploadVideoToFilesAPI env fileSize)) =
           map (chunk_request fileSize (chunk_count fileSize)) [0..<chunk_count fileSize]"
proof -
  have "0 < chunk_count fileSize" using chunk_count_pos [OF assms(1)] by simp
  then have "chunk_loop (put_ok env) fileSize (chunk_count fileSize) 0 =
      (Finalized, map (chunk_request fileSize (chunk_count fileSize)) [0..<chunk_count fileSize])"
    using assms(4) by (intro chunk_loop_all_ok) simp_all
  then show ?thesis using assms(1-3)
    by (simp add: uploadVideoToFilesAPI_def put_requests_after_finalize
        put_requests_append put_requests_map_ChunkPUT)
qed

text \<open>
  Whatever the service answers, the PUT requests issued for a large payload are an initial
  part of the planned sequence: a chunk that is not acknowledged ends the upload.
\<close>

lemma chunk_loop_prefix:
  "\<exists>k. i \<le> k \<and> k \<le> max i chunks \<and>
       snd (chunk_loop ok fileSize chunks i) = map (chunk_request fileSize chunks) [i..<k]"
proof (induction ok fileSize chunks i rule: chunk_loop.induct)
  case (1 ok fileSize chunks i)
  show ?case
  proof (cases "i < chunks")
    case False
    then have "snd (chunk_loop ok fileSize chunks i) = []"
      by (subst chunk_loop.simps) simp
    then show ?thesis by (intro exI [of _ i]) simp
  next
    case lt: True
    show ?thesis
    proof (cases "\<not> ok i \<or> int i = int chunks - 1")
      case True
      then have "snd (chunk_loop ok fileSize chunks i) = [chunk_request fileSize chunks i]"
        using lt by (subst chunk_loop.simps) (auto simp add: Let_def)
      then show ?thesis using lt by (intro exI [of _ "Suc i"]) simp
    next
      case False
      then have ok: "ok i" and nl: "int i \<noteq> int chunks - 1" by simp_all
      from "1.IH" [OF lt refl _ nl] ok
      obtain k where k: "i + 1 \<le> k" "k \<le> max (i + 1) chunks"
        "snd (chunk_loop ok fileSize chunks (i + 1)) =
           map (chunk_request fileSize chunks) [i + 1..<k]"
        by auto
      have "snd (chunk_loop ok fileSize chunks i) =
          chunk_request fileSize chunks i # snd (chunk_loop ok fileSize chunks (i + 1))"
        using lt ok nl by (subst chunk_loop.simps) (simp add: Let_def split: prod.splits)
      moreover have "[i..<k] = i # [i + 1..<k]" using k(1) by (simp add: upt_conv_Cons)
      ultimately have "snd (chunk_loop ok fileSize chunks i) =
          map (chunk_request fileSize chunks) [i..<k]"
        using k(3) by simp
      moreover have "i \<le> k" "k \<le> max i chunks" using k lt by simp_all
      ultimately show ?thesis by blast
    qed
  qed
qed

lemma upload_puts_prefix:
  assumes "MAX_CHUNK_SIZE < fileSize" "metadata_ok env" "upload_url_present env"
  shows "\<exists>k \<le> chunk_count fileSize.
           put_requests (snd (uploadVideoToFilesAPI env fileSize)) =
             map (chunk_request fileSize (chunk_count fileSize)) [0..<k]"
proof -
  obtain k where k: "k \<le> max 0 (chunk_count fileSize)"
    "snd (chunk_loop (put_ok env) fileSize (chunk_count fileSize) 0) =
       map (chunk_request fileSize (chunk_count fileSize)) [0..<k]"
    using chunk_loop_prefix [of 0 "chunk_count fileSize" "put_ok env" fileSize] by blast
  have m: "put_requests (map ChunkPUT reqs) = reqs" for reqs
    by (induction reqs) simp_all
  obtain r reqs where c: "chunk_loop (put_ok env) fileSize (chunk_count fileSize) 0 = (r, reqs)"
    by (cases "chunk_loop (put_ok env) fileSize (chunk_count fileSize) 0")
  have "put_requests (snd (uploadVideoToFilesAPI env fileSize)) = reqs"
    using assms
    by (cases r) (simp_all add: uploadVideoToFilesAPI_def c Let_def m
        put_requests_after_finalize put_requests_append)
  then have "put_requests (snd (uploadVideoToFilesAPI env fileSize)) =
      snd (chunk_loop (put_ok env) fileSize (chunk_count fileSize) 0)"
    by (simp add: c)
  then show ?thesis using k by auto
qed

lemma chunk_request_props:
  assumes "i < chunk_count fileSize"
  defines "n \<equiv> chunk_count fileSize"
  shows "upload_offset (chunk_request fileSize n i) = int i * int MAX_CHUNK_SIZE"
    and "0 < content_length (chunk_request fileSize n i)"
    and "content_length (chunk_request fileSize n i) \<le> int MAX_CHUNK_SIZE"
    and "upload_offset (chunk_request fileSize n i) + content_length (chunk_request fileSize n i) =
          (if i + 1 < n then int (i + 1) * int MAX_CHUNK_SIZE else int fileSize)"
    and "command (chunk_request fileSize n i) = UploadFinalize \<longleftrightarrow> i = n - 1"
proof -
  have lt: "int i * int MAX_CHUNK_SIZE < int fileSize"
    using chunk_start_lt [OF assms(1)] by (metis of_nat_less_iff of_nat_mult)
  show "upload_offset (chunk_request fileSize n i) = int i * int MAX_CHUNK_SIZE"
    by (simp add: chunk_request_def Let_def)
  show "0 < content_length (chunk_request fileSize n i)"
    using lt by (simp add: chunk_request_def Let_def MAX_CHUNK_SIZE_def)
  show "content_length (chunk_request fileSize n i) \<le> int MAX_CHUNK_SIZE"
    by (simp add: chunk_request_def Let_def)
  show "upload_offset (chunk_request fileSize n i) + content_length (chunk_request fileSize n i) =
          (if i + 1 < n then int (i + 1) * int MAX_CHUNK_SIZE else int fileSize)"
  proof (cases "i + 1 < n")
    case True
    then have "int (i + 1) * int MAX_CHUNK_SIZE < int fileSize"
      using chunk_start_lt [of "i + 1" fileSize] unfolding n_def
      by (metis of_nat_less_iff of_nat_mult)
    then show ?thesis using True
      by (simp add: chunk_request_def Let_def algebra_simps)
  next
    case False
    then have "n = i + 1" using assms(1) unfolding n_def by simp
    then have "int fileSize \<le> int (i + 1) * int MAX_CHUNK_SIZE"
      using chunk_last_covers [of fileSize] assms(1) unfolding n_def
      by (metis less_nat_zero_code not_gr_zero of_nat_le_iff of_nat_mult)
    then show ?thesis using False
      by (simp add: chunk_request_def Let_def algebra_simps)
  qed
  show "command (chunk_request fileSize n i) = UploadFinalize \<longleftrightarrow> i = n - 1"
    using assms(1) unfolding n_def by (auto simp add: chunk_request_def Let_def)
qed

text \<open>
  Claim C1. For a payload larger than the 50 MiB chunk threshold, when the service accepts
  the initiation request and acknowledges every chunk, \<^verbatim>\<open>uploadVideoToFilesAPI\<close> issues
  exactly \<open>ceil(fileSize / MAX_CHUNK_SIZE)\<close> PUT requests; the \<open>i\<close>-th has upload offset
  \<open>i * MAX_CHUNK_SIZE\<close> and a positive length, it ends where the next one starts and the
  last one ends at \<open>fileSize\<close>; the finalize command is on the last PUT and on no other.
\<close>

theorem C1_chunked_upload_schedule:
  assumes "MAX_CHUNK_SIZE < fileSize"
    and "metadata_ok env" and "upload_url_present env"
    and "\<forall>i < chunk_count fileSize. put_ok env i"
  shows "(let puts = put_requests (snd (uploadVideoToFilesAPI env fileSize)); n = length puts in
          n = nat \<lceil>real fileSize / real MAX_CHUNK_SIZE\<rceil> \<and>
          (\<forall>i < n. upload_offset (puts ! i) = int i * int MAX_CHUNK_SIZE \<and>
                    0 < content_length (puts ! i) \<and>
                    upload_offset (puts ! i) + content_length (puts ! i) =
                      (if i + 1 < n then upload_offset (puts ! (i + 1)) else int fileSize) \<and>
                    (command (puts ! i) = UploadFinalize \<longleftrightarrow> i = n - 1)))"
proof -
  let ?n = "chunk_count fileSize"
  have puts: "put_requests (snd (uploadVideoToFilesAPI env fileSize)) =
      map (chunk_request fileSize ?n) [0..<?n]"
    using assms by (rule upload_puts_all_ok)
  have off: "upload_offset (chunk_request fileSize ?n j) = int j * int MAX_CHUNK_SIZE" for j
    by (simp add: chunk_request_def Let_def)
  have "upload_offset (chunk_request fileSize ?n i) = int i * int MAX_CHUNK_SIZE \<and>
        0 < content_length (chunk_request fileSize ?n i) \<and>
        upload_offset (chunk_request fileSize ?n i) + content_length (chunk_request fileSize ?n i) =
          (if i + 1 < ?n then upload_offset (chunk_request fileSize ?n (i + 1)) else int fileSize) \<and>
        (command (chunk_request fileSize ?n i) = UploadFinalize \<longleftrightarrow> i = ?n - 1)"
    if "i < ?n" for i
    using chunk_request_props [OF that] unfolding off by simp
  note props = this
  let ?puts = "map (chunk_request fileSize ?n) [0..<?n]"
  have len: "length ?puts = ?n" by simp
  have "upload_offset (?puts ! i) = int i * int MAX_CHUNK_SIZE \<and>
        0 < content_length (?puts ! i) \<and>
        upload_offset (?puts ! i) + content_length (?puts ! i) =
          (if i + 1 < length ?puts then upload_offset (?puts ! (i + 1)) else int fileSize) \<and>
        (command (?puts ! i) = UploadFinalize \<longleftrightarrow> i = length ?puts - 1)"
    if "i < length ?puts" for i
  proof -
    have i: "i < ?n" using that by simp
    have a: "?puts ! i = chunk_request fileSize ?n i" using i by simp
    show ?thesis
    proof (cases "i + 1 < ?n")
      case True
      then have b: "?puts ! (i + 1) = chunk_request fileSize ?n (i + 1)" by simp
      show ?thesis using props [OF i] True unfolding a b len by simp
    next
      case False
      show ?thesis using props [OF i] False unfolding a len by simp
    qed
  qed
  then show ?thesis
    unfolding puts Let_def len unfolding chunk_count_def by blast
qed


theorem C1_chunked_upload_schedule_witness:
  "MAX_CHUNK_SIZE < 104857601 \<and> metadata_ok accepting_env \<and> upload_url_present accepting_env \<and>
   chunk_count 104857601 = 3 \<and>
   put_ok accepting_env 0 \<and> put_ok accepting_env 1 \<and> put_ok accepting_env 2 \<and>
   (let puts = put_requests (snd (uploadVideoToFilesAPI accepting_env 104857601)); n = length puts in
          n = nat \<lceil>real 104857601 / real MAX_CHUNK_SIZE\<rceil> \<and>
          (\<forall>i < n. upload_offset (puts ! i) = int i * int MAX_CHUNK_SIZE \<and>
                    0 < content_length (puts ! i) \<and>
                    upload_offset (puts ! i) + content_length (puts ! i) =
                      (if i + 1 < n then upload_offset (puts ! (i + 1)) else int 104857601) \<and>
                    (command (puts ! i) = UploadFinalize \<longleftrightarrow> i = n - 1)))"
proof -
  have h1: "MAX_CHUNK_SIZE < 104857601" by (simp add: MAX_CHUNK_SIZE_def)
  have h2: "metadata_ok accepting_env" by (simp add: accepting_env_def)
  have h3: "upload_url_present accepting_env" by (simp add: accepting_env_def)
  have cc: "chunk_count 104857601 = 3"
    by (simp add: chunk_count_def MAX_CHUNK_SIZE_def)
  have ok: "put_ok accepting_env i" for i by (simp add: accepting_env_def)
  have h4: "\<forall>i < chunk_count 104857601. put_ok accepting_env i" using ok by simp
  show ?thesis
    apply (rule conjI [OF h1])
    apply (rule conjI [OF h2])
    apply (rule conjI [OF h3])
    apply (rule conjI [OF cc])
    apply (rule conjI [OF ok])
    apply (rule conjI [OF ok])
    apply (rule conjI [OF ok])
    apply (rule C1_chunked_upload_schedule [OF h1 h2 h3 h4])
    done
qed

text \<open>The three requests of a payload of two full chunks and one byte.\<close>

lemma upload_three_chunks:
  "put_requests (snd (uploadVideoToFilesAPI accepting_env 104857601)) =
     [\<lparr>content_length = 52428800, upload_offset = 0, command = Upload\<rparr>,
      \<lparr>content_length = 52428800, upload_offset = 52428800, command = Upload\<rparr>,
      \<lparr>content_length = 1, upload_offset = 104857600, command = UploadFinalize\<rparr>]"
proof -
  have cc: "chunk_count 104857601 = 3"
    by (simp add: chunk_count_def MAX_CHUNK_SIZE_def)
  show ?thesis
    by (simp add: uploadVideoToFilesAPI_def accepting_env_def cc chunk_loop.simps
        chunk_request_def after_finalize_def MAX_CHUNK_SIZE_def Let_def)
qed

text \<open>
  Claim C9. \<^verbatim>\<open>uploadVideoToFilesAPI\<close> of the edge function has no test for an empty
  file: for \<open>fileSize = 0\<close> and a service that accepts every request it sends the
  initiation request and a finalizing PUT of length 0.
\<close>

theorem C9_empty_file_reaches_the_network:
  "uploadVideoToFilesAPI accepting_env 0 =
     (AwaitingProcessing,
      [InitiationPOST 0,
       ChunkPUT \<lparr> content_length = 0, upload_offset = 0, command = UploadFinalize \<rparr>])"
  by (simp add: uploadVideoToFilesAPI_def accepting_env_def after_finalize_def MAX_CHUNK_SIZE_def)

text \<open>The initiation request is sent whatever the size and the service.\<close>

lemma initiation_request_always_sent:
  "snd (uploadVideoToFilesAPI env fileSize) \<noteq> [] \<and>
   hd (snd (uploadVideoToFilesAPI env fileSize)) = InitiationPOST fileSize"
  by (auto simp: uploadVideoToFilesAPI_def after_finalize_def Let_def
      split: prod.splits upload_outcome.splits wait_result.splits)

text \<open>The two entry points of the client reject an empty file before any request.\<close>

lemma client_rejects_empty_file:
  "uploadAndAnalyzeVideo_checks fileType 0 \<noteq> None \<and>
   analyzePlayerPerformance_checks 0 blank = Some EmptyVideo"
  by (simp add: uploadAndAnalyzeVideo_checks_def analyzePlayerPerformance_checks_def)

section \<open>Properties of the readiness pollers\<close>










text \<open>
  Claim C3. The poller of the large-video function has no \<^verbatim>\<open>try\<close> around the status
  request: a status 503, or a rejected \<^verbatim>\<open>fetch\<close>, on the first poll ends the wait with
  that error although the next poll would have found the file \<^verbatim>\<open>ACTIVE\<close>. The poller of
  the performance-analysis function goes on polling after the state \<^verbatim>\<open>FAILED\<close>.
\<close>

theorem C3_status_failure_aborts_v1:
  "waitForFileProcessing_v1 300000 [unavailable_poll, active_poll] =
     (Threw (StatusCheckFailed 503), [StatusGET]) \<and>
   waitForFileProcessing_v1 300000 [rejected_poll, active_poll] =
     (Threw RequestFailed, [StatusGET]) \<and>
   waitForFileProcessing_v2 600000 5000 [failed_poll, active_poll] =
     (Returned, [StatusGET, Sleep 5000, StatusGET])"
  by (simp add: unavailable_poll_def rejected_poll_def active_poll_def failed_poll_def
      response_ok_def)

text \<open>
  The poller of the performance-analysis function goes on after a failed request; the
  only error it can end with is the timeout, so a reported \<^verbatim>\<open>FAILED\<close> state does not
  end it either.
\<close>

lemma v2_only_times_out:
  "fst (waitForFileProcessing_v2 m c evs) \<in> {Returned, StillPolling, Threw ProcessingTimeout}"
proof (induction evs arbitrary: c)
  case Nil
  show ?case by simp
next
  case (Cons ev evs)
  obtain r1 a1 where w1: "waitForFileProcessing_v2 m c evs = (r1, a1)"
    by (cases "waitForFileProcessing_v2 m c evs")
  obtain r2 a2 where w2: "waitForFileProcessing_v2 m (min (c * 1.2) 30000) evs = (r2, a2)"
    by (cases "waitForFileProcessing_v2 m (min (c * 1.2) 30000) evs")
  have "r1 \<in> {Returned, StillPolling, Threw ProcessingTimeout}"
    using Cons.IH [of c] w1 by simp
  moreover have "r2 \<in> {Returned, StillPolling, Threw ProcessingTimeout}"
    using Cons.IH [of "min (c * 1.2) 30000"] w2 by simp
  ultimately show ?case using w1 w2
    by (simp add: Let_def split: poll_outcome.splits response_body.splits file_state.splits)
qed

lemma v2_continues_after_failure:
  "waitForFileProcessing_v2 600000 5000 [unavailable_poll, rejected_poll, active_poll] =
     (Returned, [StatusGET, Sleep 5000, StatusGET, Sleep 5000, StatusGET])"
  by (simp add: unavailable_poll_def rejected_poll_def active_poll_def response_ok_def)

lemma v2_swallows_failed_state:
  "waitForFileProcessing_v2 600000 5000 [failed_poll, active_poll] =
     (Returned, [StatusGET, Sleep 5000, StatusGET])"
  by (simp add: failed_poll_def active_poll_def response_ok_def)

section \<open>Properties of the performance validator\<close>

lemma Math_min_cases:
  "Math_min (Fin hi) n = (case n of Fin u \<Rightarrow> Fin (min hi u) | PosInf \<Rightarrow> Fin hi | NegInf \<Rightarrow> NegInf | NaN \<Rightarrow> NaN)"
  by (cases n) (auto simp: Math_min_def js_lt_def)

lemma Math_max_cases:
  "Math_max (Fin lo) n = (case n of Fin u \<Rightarrow> Fin (max lo u) | PosInf \<Rightarrow> PosInf | NegInf \<Rightarrow> Fin lo | NaN \<Rightarrow> NaN)"
  by (cases n) (auto simp: Math_max_def js_lt_def)




lemma clamped_default:
  "lo \<le> d \<Longrightarrow> d \<le> hi \<Longrightarrow> Number_js (to_number rt) v = NaN \<or> Number_js (to_number rt) v = Fin 0 \<Longrightarrow>
   clamped rt lo hi d v = Fin d"
  by (auto simp: clamped_def num_or_else_def Math_min_cases Math_max_cases)

lemma clamped_missing:
  "lo \<le> d \<Longrightarrow> d \<le> hi \<Longrightarrow> clamped rt lo hi d None = Fin d"
  by (rule clamped_default) (simp_all add: Number_js_def)







section \<open>Properties of the player detection\<close>

lemma static_loop_all_fail:
  "attempts < static_maxAttempts \<Longrightarrow>
   (\<And>k. attempts < k \<Longrightarrow> k \<le> static_maxAttempts \<Longrightarrow> static_attempt rt (reply k) = None) \<Longrightarrow>
   static_loop rt reply timestamp attempts =
     (Some (static_fallback timestamp), static_maxAttempts,
      map (\<lambda>k. 2000 * k) [attempts + 1..<static_maxAttempts])"
proof (induction rt reply timestamp attempts rule: static_loop.induct)
  case (1 rt reply timestamp attempts)
  have none: "static_attempt rt (reply (attempts + 1)) = None"
    using "1.prems" by simp
  show ?case
  proof (cases "attempts + 1 = static_maxAttempts")
    case True
    then show ?thesis using "1.prems"(1) none
      by (subst static_loop.simps) simp
  next
    case False
    then have lt: "attempts + 1 < static_maxAttempts" using "1.prems"(1) by simp
    have ih: "static_loop rt reply timestamp (attempts + 1) =
        (Some (static_fallback timestamp), static_maxAttempts,
         map (\<lambda>k. 2000 * k) [attempts + 1 + 1..<static_maxAttempts])"
      using "1.IH" [OF "1.prems"(1) none False lt] "1.prems"(2) by simp
    have "[attempts + 1..<static_maxAttempts] = (attempts + 1) # [attempts + 1 + 1..<static_maxAttempts]"
      using lt by (simp add: upt_conv_Cons)
    then show ?thesis using "1.prems"(1) none False ih
      by (subst static_loop.simps) simp
  qed
qed

lemma static_loop_exhausted:
  assumes "\<And>k. 1 \<le> k \<Longrightarrow> k \<le> 5 \<Longrightarrow> static_attempt rt (reply k) = None"
  shows "static_loop rt reply timestamp 0 =
           (Some (static_fallback timestamp), 5, [2000, 4000, 6000, 8000])"
proof -
  have "[0 + 1..<static_maxAttempts] = [1, 2, 3, 4]"
    by (simp add: static_maxAttempts_def upt_rec)
  then show ?thesis
    using static_loop_all_fail [of 0 rt reply timestamp] assms
    by (simp add: static_maxAttempts_def)
qed

lemma video_loop_all_fail:
  "attempts < video_maxAttempts \<Longrightarrow>
   (\<And>k. attempts < k \<Longrightarrow> k \<le> video_maxAttempts \<Longrightarrow> video_attempt rt (reply k) = None) \<Longrightarrow>
   video_loop rt reply attempts =
     (Some video_fallback, video_maxAttempts,
      map (\<lambda>k. 2000 * k) [attempts + 1..<video_maxAttempts])"
proof (induction rt reply attempts rule: video_loop.induct)
  case (1 rt reply attempts)
  have none: "video_attempt rt (reply (attempts + 1)) = None"
    using "1.prems" by simp
  show ?case
  proof (cases "attempts + 1 = video_maxAttempts")
    case True
    then show ?thesis using "1.prems"(1) none
      by (subst video_loop.simps) simp
  next
    case False
    then have lt: "attempts + 1 < video_maxAttempts" using "1.prems"(1) by simp
    have ih: "video_loop rt reply (attempts + 1) =
        (Some video_fallback, video_maxAttempts,
         map (\<lambda>k. 2000 * k) [attempts + 1 + 1..<video_maxAttempts])"
      using "1.IH" [OF "1.prems"(1) none False lt] "1.prems"(2) by simp
    have "[attempts + 1..<video_maxAttempts] = (attempts + 1) # [attempts + 1 + 1..<video_maxAttempts]"
      using lt by (simp add: upt_conv_Cons)
    then show ?thesis using "1.prems"(1) none False ih
      by (subst video_loop.simps) simp
  qed
qed

lemma video_loop_exhausted:
  assumes "\<And>k. 1 \<le> k \<Longrightarrow> k \<le> 3 \<Longrightarrow> video_attempt rt (reply k) = None"
  shows "video_loop rt reply 0 = (Some video_fallback, 3, [2000, 4000])"
proof -
  have "[0 + 1..<video_maxAttempts] = [1, 2]"
    by (simp add: video_maxAttempts_def upt_rec)
  then show ?thesis
    using video_loop_all_fail [of 0 rt reply] assms
    by (simp add: video_maxAttempts_def)
qed

lemma static_fallback_no_null: "JNull \<notin> set (players (static_fallback timestamp))"
  by (simp add: static_fallback_def static_player_def)

lemma video_fallback_no_null: "JNull \<notin> set (players video_fallback)"
  by (simp add: video_fallback_def video_player_def)

lemma static_fallback_length: "length (players (static_fallback timestamp)) = 6"
  by (simp add: static_fallback_def)

lemma video_fallback_length: "length (players video_fallback) = 4"
  by (simp add: video_fallback_def)

text \<open>The loop returns either the fallback or the result of one of its attempts.\<close>

lemma static_loop_result:
  "static_loop rt reply timestamp attempts = (Some a, n, delays) \<Longrightarrow>
   a = static_fallback timestamp \<or> (\<exists>k. static_attempt rt (reply k) = Some a)"
proof (induction rt reply timestamp attempts arbitrary: n delays rule: static_loop.induct)
  case (1 rt reply timestamp attempts)
  show ?case
  proof (cases "attempts < static_maxAttempts")
    case False
    then show ?thesis using "1.prems" by (subst (asm) static_loop.simps) simp
  next
    case lt: True
    show ?thesis
    proof (cases "static_attempt rt (reply (attempts + 1))")
      case (Some b)
      then have "a = b" using "1.prems" lt by (subst (asm) static_loop.simps) simp
      then show ?thesis using Some by blast
    next
      case None
      show ?thesis
      proof (cases "attempts + 1 = static_maxAttempts")
        case True
        then show ?thesis using "1.prems" lt None by (subst (asm) static_loop.simps) simp
      next
        case False
        obtain r m ds where rec: "static_loop rt reply timestamp (attempts + 1) = (r, m, ds)"
          by (cases "static_loop rt reply timestamp (attempts + 1)")
        have "r = Some a" using "1.prems" lt None False rec
          by (subst (asm) static_loop.simps) simp
        then show ?thesis using "1.IH" [OF lt None False] rec by simp
      qed
    qed
  qed
qed

lemma valid_player_not_referee: "valid_player p \<Longrightarrow> \<not> truthy (get_prop p ''isReferee'')"
  by (auto simp: valid_player_def split: if_splits)

lemma validPlayers_subset:
  "validPlayers ps = Some vs \<Longrightarrow> p \<in> set vs \<Longrightarrow> p \<in> set ps \<and> valid_player p \<and> p \<noteq> JNull"
  by (auto simp: validPlayers_def split: if_splits)

lemma static_attempt_players:
  "static_attempt rt r = Some a \<Longrightarrow> p \<in> set (players a) \<Longrightarrow> valid_player p \<and> p \<noteq> JNull"
  by (auto simp: static_attempt_def split: model_reply.splits option.splits json.splits
      if_splits prod.splits dest: validPlayers_subset)

lemma static_fallback_valid:
  "p \<in> set (players (static_fallback timestamp)) \<Longrightarrow> \<not> truthy (get_prop p ''isReferee'')"
  by (auto simp: static_fallback_def static_player_def get_prop_def truthy_def)

lemma clamp_Fin: "lo \<le> hi \<Longrightarrow> clamp lo hi (Fin u) = Fin (max lo (min hi u))"
  by (auto simp: clamp_def Math_max_def Math_min_def js_lt_def)

lemma referee_invalid: "truthy (get_prop p ''isReferee'') \<Longrightarrow> \<not> valid_player p"
  by (simp add: valid_player_def)






lemma static_player_props:
  "get_prop (static_player i px py w h c j t col ts) ''isReferee'' = Some (JBool False)"
  "get_prop (static_player i px py w h c j t col ts) ''x'' = Some (JNum (Fin px))"
  "get_prop (static_player i px py w h c j t col ts) ''y'' = Some (JNum (Fin py))"
  "get_prop (static_player i px py w h c j t col ts) ''width'' = Some (JNum (Fin w))"
  "get_prop (static_player i px py w h c j t col ts) ''height'' = Some (JNum (Fin h))"
  "get_prop (static_player i px py w h c j t col ts) ''confidence'' = Some (JNum (Fin c))"
  by (simp_all add: static_player_def get_prop_def)

lemma static_player_valid:
  "0 \<le> px \<Longrightarrow> px \<le> 98 \<Longrightarrow> 0 \<le> py \<Longrightarrow> py \<le> 98 \<Longrightarrow> 2 \<le> w \<Longrightarrow> w \<le> 20 \<Longrightarrow>
   6 \<le> h \<Longrightarrow> h \<le> 30 \<Longrightarrow> px + w \<le> 100 \<Longrightarrow> py + h \<le> 100 \<Longrightarrow> 0.6 \<le> c \<Longrightarrow>
   valid_player (static_player i px py w h c j t col ts)"
  by (simp add: valid_player_def static_player_props truthy_def number_or_def
      js_lt_def js_gt_def js_add_def Let_def)

lemma static_fallback_all_valid:
  "list_all valid_player (players (static_fallback ts))"
  by (simp add: static_fallback_def static_player_valid)


lemma static_processed_member:
  "static_processedPlayers rt random timestamp a = Some dets \<Longrightarrow> d \<in> set dets \<Longrightarrow>
   \<exists>index p. p \<in> set (players a) \<and> d = static_process rt random (teamColors a) timestamp index p"
proof -
  assume proc: "static_processedPlayers rt random timestamp a = Some dets" and d: "d \<in> set dets"
  from proc have "dets = map (\<lambda>(index, player).
      static_process rt random (teamColors a) timestamp index player) (enumerate 0 (players a))"
    by (auto simp: static_processedPlayers_def split: if_splits)
  with d obtain i q where iq: "(i, q) \<in> set (enumerate 0 (players a))"
    and dq: "d = static_process rt random (teamColors a) timestamp i q"
    by auto
  from iq have "q \<in> set (players a)"
    by (auto simp: in_set_enumerate_eq)
  with dq show ?thesis by blast
qed

lemma static_processed_length:
  "static_processedPlayers rt random timestamp a = Some dets \<Longrightarrow> length dets = length (players a)"
  by (auto simp: static_processedPlayers_def split: if_splits)

lemma static_output_sources:
  assumes "analyzeStaticFrameForPlayers rt random model_ready reply timestamp = Inr dets"
  shows "\<exists>a. (a = static_fallback timestamp \<or> (\<exists>k. static_attempt rt (reply k) = Some a)) \<and>
             static_processedPlayers rt random timestamp a = Some dets \<and>
             (\<forall>p \<in> set (players a). valid_player p)"
proof -
  obtain r n delays where loop: "static_loop rt reply timestamp 0 = (r, n, delays)"
    by (cases "static_loop rt reply timestamp 0")
  from assms loop obtain a where a: "r = Some a"
    and proc: "static_processedPlayers rt random timestamp a = Some dets"
    by (auto simp: analyzeStaticFrameForPlayers_def split: if_splits option.splits)
  have src: "a = static_fallback timestamp \<or> (\<exists>k. static_attempt rt (reply k) = Some a)"
    using static_loop_result loop a by blast
  have "\<forall>p \<in> set (players a). valid_player p"
    using src static_attempt_players static_fallback_all_valid [of timestamp]
    by (auto simp: list_all_iff)
  with src proc show ?thesis by blast
qed

text \<open>
  Claim C6. A candidate whose \<^verbatim>\<open>isReferee\<close> is truthy is rejected by the filter whatever
  its other fields are; what the filter keeps are members of its input that are not so
  flagged; and every detection that \<^verbatim>\<open>analyzeStaticFrameForPlayers\<close> returns has
  \<^verbatim>\<open>isReferee\<close> false and is the normalisation of an unflagged candidate, taken from a
  reply or from the fallback.
\<close>

theorem C6_referees_never_in_output:
  "(truthy (get_prop p ''isReferee'') \<longrightarrow> \<not> valid_player p) \<and>
   (\<forall>vs. validPlayers ps = Some vs \<longrightarrow>
      (\<forall>q \<in> set vs. q \<in> set ps \<and> \<not> truthy (get_prop q ''isReferee''))) \<and>
   (\<forall>dets. analyzeStaticFrameForPlayers rt random model_ready reply timestamp = Inr dets \<longrightarrow>
      (\<forall>d \<in> set dets. det_isReferee d = False) \<and>
      (\<exists>a. (a = static_fallback timestamp \<or> (\<exists>k. static_attempt rt (reply k) = Some a)) \<and>
           (\<forall>q \<in> set (players a). \<not> truthy (get_prop q ''isReferee'')) \<and>
           static_processedPlayers rt random timestamp a = Some dets))"
proof (intro conjI allI impI)
  show "\<not> valid_player p" if "truthy (get_prop p ''isReferee'')"
    using that by (rule referee_invalid)
next
  fix vs assume "validPlayers ps = Some vs"
  then show "\<forall>q \<in> set vs. q \<in> set ps \<and> \<not> truthy (get_prop q ''isReferee'')"
    using validPlayers_subset valid_player_not_referee by blast
next
  fix dets
  assume res: "analyzeStaticFrameForPlayers rt random model_ready reply timestamp = Inr dets"
  from static_output_sources [OF res] obtain a
    where src: "a = static_fallback timestamp \<or> (\<exists>k. static_attempt rt (reply k) = Some a)"
      and proc: "static_processedPlayers rt random timestamp a = Some dets"
      and valid: "\<forall>p \<in> set (players a). valid_player p"
    by blast
  show "\<forall>d \<in> set dets. det_isReferee d = False"
  proof
    fix d assume "d \<in> set dets"
    from static_processed_member [OF proc this] show "det_isReferee d = False"
      by (auto simp: static_process_def)
  qed
  have "\<forall>q \<in> set (players a). \<not> truthy (get_prop q ''isReferee'')"
    using valid valid_player_not_referee by blast
  with src proc
  show "\<exists>a. (a = static_fallback timestamp \<or> (\<exists>k. static_attempt rt (reply k) = Some a)) \<and>
           (\<forall>q \<in> set (players a). \<not> truthy (get_prop q ''isReferee'')) \<and>
           static_processedPlayers rt random timestamp a = Some dets"
    by blast
qed

theorem C6_referees_never_in_output_witness:
  "truthy (get_prop referee_candidate ''isReferee'') \<and> \<not> valid_player referee_candidate \<and>
   static_attempt model_runtime (ReplyText referee_reply) =
     Some \<lparr> teamColors = None, players = [inside_candidate] \<rparr>"
proof -
  have t: "truthy (get_prop referee_candidate ''isReferee'')"
    by (simp add: referee_candidate_def get_prop_def truthy_def)
  have n: "\<not> valid_player referee_candidate"
    using t C6_referees_never_in_output [of referee_candidate] by blast
  have a: "static_attempt model_runtime (ReplyText referee_reply) =
     Some \<lparr> teamColors = None, players = [inside_candidate] \<rparr>"
    by code_simp
  show ?thesis using t n a by blast
qed




text \<open>
  The normalised width is at least 4 even where the filter admitted a narrower box at the
  right edge: there the normalised box reaches beyond 100.
\<close>

lemma narrow_box_overflows:
  "valid_player narrow_candidate \<and>
   det_x (static_process rt random colors timestamp index narrow_candidate) = Fin 97 \<and>
   det_width (static_process rt random colors timestamp index narrow_candidate) = Fin 4"
proof -
  have props: "get_prop narrow_candidate ''x'' = Some (JNum (Fin 97))"
    "get_prop narrow_candidate ''width'' = Some (JNum (Fin 3))"
    "get_prop narrow_candidate ''y'' = Some (JNum (Fin 12))"
    "get_prop narrow_candidate ''height'' = Some (JNum (Fin 18))"
    "get_prop narrow_candidate ''confidence'' = Some (JNum (Fin 0.9))"
    "get_prop narrow_candidate ''isReferee'' = None"
    by (simp_all add: narrow_candidate_def get_prop_def)
  show ?thesis
    by (simp add: valid_player_def static_process_def props truthy_def number_or_def
        js_lt_def js_gt_def js_add_def clamp_Fin)
qed

lemma static_attempt_failed [simp]: "static_attempt rt GenerationFailed = None"
  by (simp add: static_attempt_def)

lemma video_attempt_failed [simp]: "video_attempt rt GenerationFailed = None"
  by (simp add: video_attempt_def)

lemma static_exhausted_result:
  assumes "\<And>k. 1 \<le> k \<Longrightarrow> k \<le> 5 \<Longrightarrow> static_attempt rt (reply k) = None"
  shows "analyzeStaticFrameForPlayers rt random True reply timestamp =
           Inr (map (\<lambda>(index, player).
                       static_process rt random (teamColors (static_fallback timestamp)) timestamp index player)
                    (enumerate 0 (players (static_fallback timestamp))))"
  using static_loop_exhausted [OF assms, where timestamp = timestamp] static_fallback_no_null [of timestamp]
  by (simp add: analyzeStaticFrameForPlayers_def static_processedPlayers_def)

lemma video_exhausted_result:
  assumes "\<And>k. 1 \<le> k \<Longrightarrow> k \<le> 3 \<Longrightarrow> video_attempt rt (reply k) = None"
  shows "analyzeVideoWithFilesAPI rt random reply =
           Inr \<lparr> vr_players = map (\<lambda>(index, player).
                       video_process rt random (teamColors video_fallback) index player)
                    (enumerate 0 (players video_fallback)),
                 vr_teamColors = JObj [(''home'', JStr blue_zh), (''away'', JStr red_zh)] \<rparr>"
proof -
  have "or_else (teamColors video_fallback) (JObj [(''home'', JStr blue_zh), (''away'', JStr red_zh)])
      = JObj [(''home'', JStr blue_zh), (''away'', JStr red_zh)]"
    by (simp add: video_fallback_def or_else_def truthy_def)
  then show ?thesis
    using video_loop_exhausted [OF assms] video_fallback_no_null
    by (simp add: analyzeVideoWithFilesAPI_def)
qed

text \<open>
  Claim C4 (as amended). If every attempt fails, \<^verbatim>\<open>analyzeStaticFrameForPlayers\<close> makes
  exactly its 5 attempts and \<^verbatim>\<open>analyzeVideoWithFilesAPI\<close> exactly its 3, and each then
  returns, instead of an error, the normalisation of its fixed fallback set: 6 and 4
  detections. The value returned has no field that tells a fallback from a detection.
\<close>

theorem C4_exhaustion_returns_fallback:
  "((\<forall>k. 1 \<le> k \<and> k \<le> static_maxAttempts \<longrightarrow> static_attempt rt (reply k) = None) \<longrightarrow>
      static_attempts rt reply timestamp = static_maxAttempts \<and> static_maxAttempts = 5 \<and>
      (\<exists>dets. analyzeStaticFrameForPlayers rt random True reply timestamp = Inr dets \<and>
              static_processedPlayers rt random timestamp (static_fallback timestamp) = Some dets \<and>
              length dets = 6)) \<and>
   ((\<forall>k. 1 \<le> k \<and> k \<le> video_maxAttempts \<longrightarrow> video_attempt rt (vreply k) = None) \<longrightarrow>
      video_attempts rt vreply = video_maxAttempts \<and> video_maxAttempts = 3 \<and>
      (\<exists>res. analyzeVideoWithFilesAPI rt random vreply = Inr res \<and>
             vr_players res =
               map (\<lambda>(index, player).
                      video_process rt random (teamColors video_fallback) index player)
                   (enumerate 0 (players video_fallback)) \<and>
             length (vr_players res) = 4))"
proof (intro conjI impI)
  assume "\<forall>k. 1 \<le> k \<and> k \<le> static_maxAttempts \<longrightarrow> static_attempt rt (reply k) = None"
  then have fails: "\<And>k. 1 \<le> k \<Longrightarrow> k \<le> 5 \<Longrightarrow> static_attempt rt (reply k) = None"
    by (simp add: static_maxAttempts_def)
  show "static_attempts rt reply timestamp = static_maxAttempts"
    using static_loop_exhausted [OF fails, where timestamp = timestamp]
    by (simp add: static_attempts_def static_maxAttempts_def)
  show "static_maxAttempts = 5" by (simp add: static_maxAttempts_def)
  show "\<exists>dets. analyzeStaticFrameForPlayers rt random True reply timestamp = Inr dets \<and>
              static_processedPlayers rt random timestamp (static_fallback timestamp) = Some dets \<and>
              length dets = 6"
    using static_exhausted_result [OF fails, where random = random and timestamp = timestamp]
      static_fallback_no_null [of timestamp] static_fallback_length [of timestamp]
    by (simp add: static_processedPlayers_def)
next
  assume "\<forall>k. 1 \<le> k \<and> k \<le> video_maxAttempts \<longrightarrow> video_attempt rt (vreply k) = None"
  then have fails: "\<And>k. 1 \<le> k \<Longrightarrow> k \<le> 3 \<Longrightarrow> video_attempt rt (vreply k) = None"
    by (simp add: video_maxAttempts_def)
  show "video_attempts rt vreply = video_maxAttempts"
    using video_loop_exhausted [OF fails]
    by (simp add: video_attempts_def video_maxAttempts_def)
  show "video_maxAttempts = 3" by (simp add: video_maxAttempts_def)
  show "\<exists>res. analyzeVideoWithFilesAPI rt random vreply = Inr res \<and>
             vr_players res =
               map (\<lambda>(index, player).
                      video_process rt random (teamColors video_fallback) index player)
                   (enumerate 0 (players video_fallback)) \<and>
             length (vr_players res) = 4"
    using video_exhausted_result [OF fails, where random = random] video_fallback_length
    by simp
qed

theorem C4_exhaustion_returns_fallback_witness:
  "static_attempt model_runtime (always_failing 1) = None \<and>
   static_attempts model_runtime always_failing (Fin 10) = 5 \<and>
   video_attempt model_runtime (always_failing 1) = None \<and>
   video_attempts model_runtime always_failing = 3"
proof -
  have s: "\<forall>k. 1 \<le> k \<and> k \<le> static_maxAttempts \<longrightarrow>
      static_attempt model_runtime (always_failing k) = None"
    by (simp add: always_failing_def)
  have v: "\<forall>k. 1 \<le> k \<and> k \<le> video_maxAttempts \<longrightarrow>
      video_attempt model_runtime (always_failing k) = None"
    by (simp add: always_failing_def)
  note inst = C4_exhaustion_returns_fallback
    [of model_runtime always_failing "Fin 10" steady_random always_failing]
  have a: "static_attempts model_runtime always_failing (Fin 10) = 5"
    using inst s by metis
  have b: "video_attempts model_runtime always_failing = 3"
    using inst v by metis
  show ?thesis using a b by (simp add: always_failing_def)
qed

text \<open>
  The value returned after five failed attempts is the value returned when the first
  reply lists the same six players: the caller cannot tell the two apart.
\<close>

lemma fallback_like_attempt:
  "static_attempt model_runtime (ReplyText fallback_like_reply) = Some (static_fallback (Fin 10))"
  by code_simp

theorem C4_fallback_not_flagged_counterexample:
  "static_attempts model_runtime always_failing (Fin 10) = 5 \<and>
   static_attempts model_runtime fallback_like_replies (Fin 10) = 1 \<and>
   analyzeStaticFrameForPlayers model_runtime steady_random True always_failing (Fin 10) =
   analyzeStaticFrameForPlayers model_runtime steady_random True fallback_like_replies (Fin 10)"
proof -
  have fails: "\<And>k. 1 \<le> k \<Longrightarrow> k \<le> 5 \<Longrightarrow> static_attempt model_runtime (always_failing k) = None"
    by (simp add: always_failing_def)
  have l1: "static_loop model_runtime always_failing (Fin 10) 0 =
      (Some (static_fallback (Fin 10)), 5, [2000, 4000, 6000, 8000])"
    by (rule static_loop_exhausted [OF fails])
  have l2: "static_loop model_runtime fallback_like_replies (Fin 10) 0 =
      (Some (static_fallback (Fin 10)), 1, [])"
    by (subst static_loop.simps)
       (simp add: static_maxAttempts_def fallback_like_replies_def fallback_like_attempt)
  show ?thesis
    by (simp add: analyzeStaticFrameForPlayers_def static_attempts_def l1 l2)
qed

section \<open>Properties of the fallback generators\<close>

lemma floor_scaled:
  fixes r :: real
  assumes "0 \<le> r" "r < 1" "0 < m"
  shows "0 \<le> \<lfloor>r * real m\<rfloor> \<and> \<lfloor>r * real m\<rfloor> \<le> int m - 1"
proof -
  have "0 \<le> r * real m" using assms by simp
  then have a: "0 \<le> \<lfloor>r * real m\<rfloor>" by simp
  have "r * real m < real m" using assms by simp
  then have "\<lfloor>r * real m\<rfloor> < int m" by (simp add: floor_less_iff)
  then show ?thesis using a by simp
qed

lemma fallback_performance_ranges:
  assumes "\<And>k. 0 \<le> random k \<and> random k < 1"
  shows "(let v = generateFallbackPerformanceData rt random now playerName in
        in_range 70 89 (overall v) \<and> in_range 65 93 (speed v) \<and> in_range 65 93 (passing v) \<and>
        in_range 65 93 (positioning v) \<and> in_range 80 139 (touches v) \<and>
        in_range 6 9 (distance v) \<and> in_range 20 28 (topSpeed v) \<and>
        in_range 75 94 (passAccuracy v) \<and> in_range 60 89 (dominantFoot_right v) \<and>
        in_range 11 40 (dominantFoot_left v))"
proof -
  have r: "0 \<le> random k" "random k < 1" for k using assms by simp_all
  have f20: "0 \<le> \<lfloor>random k * 20\<rfloor> \<and> \<lfloor>random k * 20\<rfloor> \<le> 19" for k
    using floor_scaled [OF r, of 20 k] by simp
  have f10: "0 \<le> \<lfloor>random k * 10\<rfloor> \<and> \<lfloor>random k * 10\<rfloor> \<le> 9" for k
    using floor_scaled [OF r, of 10 k] by simp
  have f60: "0 \<le> \<lfloor>random k * 60\<rfloor> \<and> \<lfloor>random k * 60\<rfloor> \<le> 59" for k
    using floor_scaled [OF r, of 60 k] by simp
  have f30: "0 \<le> \<lfloor>random k * 30\<rfloor> \<and> \<lfloor>random k * 30\<rfloor> \<le> 29" for k
    using floor_scaled [OF r, of 30 k] by simp
  have b: "0 \<le> real_of_int \<lfloor>random 0 * 20\<rfloor>" "real_of_int \<lfloor>random 0 * 20\<rfloor> \<le> 19"
    using f20 [of 0] by simp_all
  have s: "0 \<le> real_of_int \<lfloor>random k * 10\<rfloor>" "real_of_int \<lfloor>random k * 10\<rfloor> \<le> 9" for k
    using f10 [of k] by simp_all
  have t: "0 \<le> real_of_int \<lfloor>random 4 * 60\<rfloor>" "real_of_int \<lfloor>random 4 * 60\<rfloor> \<le> 59"
    using f60 [of 4] by simp_all
  have p: "0 \<le> real_of_int \<lfloor>random 7 * 20\<rfloor>" "real_of_int \<lfloor>random 7 * 20\<rfloor> \<le> 19"
    using f20 [of 7] by simp_all
  have d: "0 \<le> real_of_int \<lfloor>random k * 30\<rfloor>" "real_of_int \<lfloor>random k * 30\<rfloor> \<le> 29" for k
    using f30 [of k] by simp_all
  show ?thesis
    unfolding generateFallbackPerformanceData_def Let_def in_range_def
    apply (simp only: performance_data.select_convs jsnum.case)
    using b s [of 1] s [of 2] s [of 3] t p d [of 8] d [of 9] r [of 5] r [of 6]
    apply (intro conjI)
    apply linarith+
    done
qed

lemma video_player_props:
  "get_prop (video_player i px py c j t col ts) ''id'' = Some (JNum (Fin i))"
  "get_prop (video_player i px py c j t col ts) ''x'' = Some (JNum (Fin px))"
  "get_prop (video_player i px py c j t col ts) ''y'' = Some (JNum (Fin py))"
  "get_prop (video_player i px py c j t col ts) ''confidence'' = Some (JNum (Fin c))"
  "get_prop (video_player i px py c j t col ts) ''jersey'' = Some (JStr j)"
  "get_prop (video_player i px py c j t col ts) ''team'' = Some (JStr t)"
  "get_prop (video_player i px py c j t col ts) ''teamColor'' = Some (JStr col)"
  "get_prop (video_player i px py c j t col ts) ''timestamp'' = Some (JNum (Fin ts))"
  by (simp_all add: video_player_def get_prop_def)

lemma video_positions_length: "length (video_positions rt random k n px py) = n"
  by (induction n arbitrary: k) simp_all

lemma clamp_in_range': "lo \<le> hi \<Longrightarrow> in_range lo hi (clamp lo hi (Fin u))"
  by (simp add: clamp_Fin in_range_def)

lemma video_positions_in_range:
  "q \<in> set (video_positions rt random k n (JNum (Fin u)) (JNum (Fin v))) \<Longrightarrow>
   in_range 5 95 (fst q) \<and> in_range 5 95 (snd q)"
  by (induction n arbitrary: k)
     (auto simp: plus_as_number_def js_add_def clamp_in_range')

lemma video_process_positions_only:
  "(video_process rt random1 colors index p)\<lparr>vd_positions := []\<rparr> =
   (video_process rt random2 colors index p)\<lparr>vd_positions := []\<rparr>"
  by (simp add: video_process_def)

lemma video_fallback_positions:
  assumes "d \<in> set (map (\<lambda>(index, player).
              video_process rt random (teamColors video_fallback) index player)
            (enumerate 0 (players video_fallback)))"
  shows "length (vd_positions d) = 7 \<and>
         (\<forall>q \<in> set (vd_positions d). in_range 5 95 (fst q) \<and> in_range 5 95 (snd q))"
proof -
  from assms obtain i p where ip: "(i, p) \<in> set (enumerate 0 (players video_fallback))"
    and d: "d = video_process rt random (teamColors video_fallback) i p"
    by auto
  from ip have p: "p \<in> set (players video_fallback)"
    by (auto simp: in_set_enumerate_eq)
  from p obtain n a b c j t col ts where v: "p = video_player n a b c j t col ts" and "a \<noteq> 0" "b \<noteq> 0"
    by (auto simp: video_fallback_def)
  then have pos: "vd_positions d = video_positions rt random (14 * i) 7 (JNum (Fin a)) (JNum (Fin b))"
    by (simp add: d video_process_def video_player_props or_else_def truthy_def)
  show ?thesis
    unfolding pos using video_positions_in_range by (auto simp: video_positions_length)
qed

text \<open>
  Claim C7 (as amended). The fallback generators draw from \<^verbatim>\<open>Math.random()\<close>. With
  draws in \<open>[0, 1)\<close> the fields of \<^verbatim>\<open>generateFallbackPerformanceData\<close> lie in fixed
  ranges (overall 70 to 89, speed, passing and positioning 65 to 93, touches 80 to 139,
  distance 6 to 9, top speed 20 to 28, pass accuracy 75 to 94, right foot 60 to 89, left
  foot 11 to 40), and the player name has no influence on them. Two exhausted runs of
  \<^verbatim>\<open>analyzeVideoWithFilesAPI\<close> return the same team colours and the same four players
  in every field but the movement positions, which depend on the draws and stay between
  5 and 95, seven per player.
\<close>

theorem C7_fallback_depends_on_random:
  "((\<forall>k. 0 \<le> random k \<and> random k < 1) \<longrightarrow>
      (let v = generateFallbackPerformanceData rt random now playerName in
        in_range 70 89 (overall v) \<and> in_range 65 93 (speed v) \<and> in_range 65 93 (passing v) \<and>
        in_range 65 93 (positioning v) \<and> in_range 80 139 (touches v) \<and>
        in_range 6 9 (distance v) \<and> in_range 20 28 (topSpeed v) \<and>
        in_range 75 94 (passAccuracy v) \<and> in_range 60 89 (dominantFoot_right v) \<and>
        in_range 11 40 (dominantFoot_left v))) \<and>
   generateFallbackPerformanceData rt random now playerName =
     generateFallbackPerformanceData rt random now otherName \<and>
   ((\<forall>k. 1 \<le> k \<and> k \<le> video_maxAttempts \<longrightarrow>
         video_attempt rt (reply1 k) = None \<and> video_attempt rt (reply2 k) = None) \<longrightarrow>
      (\<exists>res1 res2.
         analyzeVideoWithFilesAPI rt random1 reply1 = Inr res1 \<and>
         analyzeVideoWithFilesAPI rt random2 reply2 = Inr res2 \<and>
         vr_teamColors res1 = vr_teamColors res2 \<and>
         map (\<lambda>d. d\<lparr>vd_positions := []\<rparr>) (vr_players res1) =
           map (\<lambda>d. d\<lparr>vd_positions := []\<rparr>) (vr_players res2) \<and>
         (\<forall>d \<in> set (vr_players res1).
            length (vd_positions d) = 7 \<and>
            (\<forall>q \<in> set (vd_positions d). in_range 5 95 (fst q) \<and> in_range 5 95 (snd q)))))"
proof (intro conjI impI)
  assume "\<forall>k. 0 \<le> random k \<and> random k < 1"
  then show "let v = generateFallbackPerformanceData rt random now playerName in
        in_range 70 89 (overall v) \<and> in_range 65 93 (speed v) \<and> in_range 65 93 (passing v) \<and>
        in_range 65 93 (positioning v) \<and> in_range 80 139 (touches v) \<and>
        in_range 6 9 (distance v) \<and> in_range 20 28 (topSpeed v) \<and>
        in_range 75 94 (passAccuracy v) \<and> in_range 60 89 (dominantFoot_right v) \<and>
        in_range 11 40 (dominantFoot_left v)"
    by (intro fallback_performance_ranges) simp
next
  show "generateFallbackPerformanceData rt random now playerName =
     generateFallbackPerformanceData rt random now otherName"
    by (simp add: generateFallbackPerformanceData_def)
next
  assume fails: "\<forall>k. 1 \<le> k \<and> k \<le> video_maxAttempts \<longrightarrow>
         video_attempt rt (reply1 k) = None \<and> video_attempt rt (reply2 k) = None"
  then have f1: "\<And>k. 1 \<le> k \<Longrightarrow> k \<le> 3 \<Longrightarrow> video_attempt rt (reply1 k) = None"
    and f2: "\<And>k. 1 \<le> k \<Longrightarrow> k \<le> 3 \<Longrightarrow> video_attempt rt (reply2 k) = None"
    by (simp_all add: video_maxAttempts_def)
  let ?res = "\<lambda>random. \<lparr> vr_players = map (\<lambda>(index, player).
                       video_process rt random (teamColors video_fallback) index player)
                    (enumerate 0 (players video_fallback)),
                 vr_teamColors = JObj [(''home'', JStr blue_zh), (''away'', JStr red_zh)] \<rparr>"
  have r1: "analyzeVideoWithFilesAPI rt random1 reply1 = Inr (?res random1)"
    by (rule video_exhausted_result [OF f1])
  have r2: "analyzeVideoWithFilesAPI rt random2 reply2 = Inr (?res random2)"
    by (rule video_exhausted_result [OF f2])
  have same: "map (\<lambda>d. d\<lparr>vd_positions := []\<rparr>) (vr_players (?res random1)) =
           map (\<lambda>d. d\<lparr>vd_positions := []\<rparr>) (vr_players (?res random2))"
    by (simp add: video_process_positions_only [of rt random1 _ _ _ random2] split_def)
  have pos: "\<forall>d \<in> set (vr_players (?res random1)).
            length (vd_positions d) = 7 \<and>
            (\<forall>q \<in> set (vd_positions d). in_range 5 95 (fst q) \<and> in_range 5 95 (snd q))"
    using video_fallback_positions [of _ rt random1] by simp
  show "\<exists>res1 res2.
         analyzeVideoWithFilesAPI rt random1 reply1 = Inr res1 \<and>
         analyzeVideoWithFilesAPI rt random2 reply2 = Inr res2 \<and>
         vr_teamColors res1 = vr_teamColors res2 \<and>
         map (\<lambda>d. d\<lparr>vd_positions := []\<rparr>) (vr_players res1) =
           map (\<lambda>d. d\<lparr>vd_positions := []\<rparr>) (vr_players res2) \<and>
         (\<forall>d \<in> set (vr_players res1).
            length (vd_positions d) = 7 \<and>
            (\<forall>q \<in> set (vd_positions d). in_range 5 95 (fst q) \<and> in_range 5 95 (snd q)))"
    apply (rule exI [of _ "?res random1"])
    apply (rule exI [of _ "?res random2"])
    apply (intro conjI r1 r2 same pos)
    apply simp
    done
qed

theorem C7_fallback_depends_on_random_witness:
  "0 \<le> steady_random 0 \<and> steady_random 0 < 1 \<and>
   in_range 70 89 (overall (generateFallbackPerformanceData model_runtime steady_random 0 ''Ann'')) \<and>
   overall (generateFallbackPerformanceData model_runtime steady_random 0 ''Ann'') = Fin 80"
proof -
  have h: "\<forall>k. 0 \<le> steady_random k \<and> steady_random k < 1"
    by (simp add: steady_random_def)
  have r: "in_range 70 89 (overall (generateFallbackPerformanceData model_runtime steady_random 0 ''Ann''))"
    using h C7_fallback_depends_on_random [of steady_random model_runtime 0 "''Ann''"]
    unfolding Let_def by blast
  have v: "overall (generateFallbackPerformanceData model_runtime steady_random 0 ''Ann'') = Fin 80"
    by (simp add: generateFallbackPerformanceData_def steady_random_def)
  show ?thesis using h r v by blast
qed

text \<open>
  Two invocations with the same player name and clock but different draws differ, in
  the performance scores as in the movement positions.
\<close>

theorem C7_two_invocations_differ_counterexample:
  "overall (generateFallbackPerformanceData model_runtime low_random 0 ''Ann'') = Fin 70 \<and>
   overall (generateFallbackPerformanceData model_runtime steady_random 0 ''Ann'') = Fin 80 \<and>
   vd_positions (video_process model_runtime low_random None 0
      (video_player 1 30 45 0.8 ''10'' ''home'' blue_zh 10)) = replicate 7 (Fin 22.5, Fin 40) \<and>
   vd_positions (video_process model_runtime steady_random None 0
      (video_player 1 30 45 0.8 ''10'' ''home'' blue_zh 10)) = replicate 7 (Fin 30, Fin 45)"
  by (simp add: generateFallbackPerformanceData_def low_random_def steady_random_def
      video_process_def video_player_props or_else_def truthy_def plus_as_number_def
      js_add_def clamp_Fin numeral_eq_Suc)

section \<open>Properties of the extractors\<close>

lemma star_any_suffixes:
  "length s \<le> n \<Longrightarrow> rmatch n (Star (Cls any_char)) s = suffixes_shortest_first s"
proof (induction s arbitrary: n)
  case Nil
  then show ?case by (cases n) simp_all
next
  case (Cons c t)
  then obtain m where n: "n = Suc m" and m: "length t \<le> m" by (cases n) simp_all
  show ?case using Cons.IH [OF m] by (simp add: n any_char_def)
qed

lemma suffixes_append:
  "\<exists>rest. suffixes_shortest_first (a @ s) = suffixes_shortest_first s @ rest"
  by (induction a) auto

lemma no_closing_brace:
  "CHR ''}'' \<notin> set post \<Longrightarrow>
   concat (map (rmatch n (Chr CHR ''}'')) (suffixes_shortest_first post)) = []"
  by (induction post) auto

lemma first_to_last_brace_match:
  assumes "CHR ''}'' \<notin> set post" and "Suc (length mid + Suc (length post)) \<le> n"
  shows "\<exists>rest. rmatch n first_to_last_brace (CHR ''{'' # mid @ CHR ''}'' # post) = post # rest"
proof -
  have len: "length (mid @ CHR ''}'' # post) \<le> n" using assms(2) by simp
  obtain r1 where r1: "suffixes_shortest_first (mid @ CHR ''}'' # post) =
      suffixes_shortest_first (CHR ''}'' # post) @ r1"
    using suffixes_append by blast
  have "rmatch n first_to_last_brace (CHR ''{'' # mid @ CHR ''}'' # post) =
      concat (map (rmatch n (Chr CHR ''}'')) (suffixes_shortest_first (mid @ CHR ''}'' # post)))"
    by (simp add: first_to_last_brace_def star_any_suffixes [OF len])
  also have "\<dots> = post # concat (map (rmatch n (Chr CHR ''}'')) r1)"
    unfolding r1 using no_closing_brace [OF assms(1)] by simp
  finally show ?thesis by blast
qed

lemma match_at_object:
  assumes "CHR ''}'' \<notin> set post"
  shows "match_at Eps first_to_last_brace Eps (CHR ''{'' # mid @ CHR ''}'' # post) =
           Some (CHR ''{'' # mid @ [CHR ''}''], CHR ''{'' # mid @ [CHR ''}''])"
proof -
  let ?s = "CHR ''{'' # mid @ CHR ''}'' # post"
  obtain rest where m: "rmatch (Suc (Suc (length mid + length post))) first_to_last_brace ?s =
      post # rest"
    using first_to_last_brace_match [OF assms, of mid "Suc (Suc (length mid + length post))"]
    by auto
  show ?thesis
    by (simp add: match_at_def Let_def m)
qed

lemma match_at_no_brace:
  "c \<noteq> CHR ''{'' \<Longrightarrow> match_at Eps first_to_last_brace Eps (c # s) = None"
  by (simp add: match_at_def first_to_last_brace_def Let_def)

lemma regex_exec_skips_prose:
  assumes "CHR ''{'' \<notin> set pre" and "CHR ''}'' \<notin> set post"
  shows "regex_exec Eps first_to_last_brace Eps skipped (pre @ CHR ''{'' # mid @ CHR ''}'' # post) =
           Some (rev skipped @ pre, CHR ''{'' # mid @ [CHR ''}''], CHR ''{'' # mid @ [CHR ''}''], post)"
  using assms(1)
proof (induction pre arbitrary: skipped)
  case Nil
  show ?case using match_at_object [OF assms(2), of mid] by simp
next
  case (Cons c pre)
  then have "c \<noteq> CHR ''{''" and "CHR ''{'' \<notin> set pre" by auto
  then show ?case using Cons.IH [of "c # skipped"] match_at_no_brace [of c] by simp
qed

lemma method1_finds_object:
  assumes "CHR ''{'' \<notin> set pre" and "CHR ''}'' \<notin> set post"
  shows "method1 rt (pre @ (CHR ''{'' # mid @ [CHR ''}'']) @ post) =
           JSON_parse rt (CHR ''{'' # mid @ [CHR ''}''])"
  using regex_exec_skips_prose [OF assms, of "[]" mid]
  by (simp add: method1_def text_match_def)

lemma indexOf_skips:
  "c \<notin> set pre \<Longrightarrow> indexOf (pre @ c # s) c = Some (length pre)"
  by (induction pre) auto

lemma lastIndexOf_skips:
  assumes "c \<notin> set post"
  shows "lastIndexOf (s @ c # post) c = Some (length s)"
proof -
  have "indexOf (rev post @ c # rev s) c = Some (length (rev post))"
    using assms by (intro indexOf_skips) simp
  then show ?thesis by (simp add: lastIndexOf_def)
qed

lemma extractJsonFromString_finds_object:
  assumes "CHR ''{'' \<notin> set pre" and "CHR ''}'' \<notin> set post"
  shows "extractJsonFromString (pre @ (CHR ''{'' # mid @ [CHR ''}'']) @ post) =
           Some (CHR ''{'' # mid @ [CHR ''}''])"
proof -
  let ?text = "pre @ CHR ''{'' # mid @ CHR ''}'' # post"
  have f: "indexOf ?text CHR ''{'' = Some (length pre)"
    by (rule indexOf_skips [OF assms(1)])
  have "lastIndexOf ((pre @ CHR ''{'' # mid) @ CHR ''}'' # post) CHR ''}'' =
      Some (length (pre @ CHR ''{'' # mid))"
    by (rule lastIndexOf_skips [OF assms(2)])
  then have l: "lastIndexOf ?text CHR ''}'' = Some (Suc (length pre + length mid))" by simp
  have "extractJsonFromString ?text = Some (CHR ''{'' # mid @ [CHR ''}''])"
    by (simp add: extractJsonFromString_def f l substring_def Let_def min_def)
  then show ?thesis by simp
qed

text \<open>
  Claim C2 (as amended). For a text made of noise, a well-formed JSON object and more
  noise, where the noise before the object has no \<^verbatim>\<open>{\<close> and the noise after it has no
  \<^verbatim>\<open>}\<close> (prose and code fences without braces), \<^verbatim>\<open>extractJsonFromText\<close> returns
  exactly what \<^verbatim>\<open>JSON.parse\<close> makes of the object, and \<^verbatim>\<open>extractJsonFromString\<close> returns
  exactly the text of the object.
\<close>

theorem C2_extraction_without_braces_in_noise:
  assumes "CHR ''{'' \<notin> set pre" and "CHR ''}'' \<notin> set post"
    and "JSON_parse rt (CHR ''{'' # mid @ [CHR ''}'']) = Some v"
  shows "extractJsonFromText rt (pre @ (CHR ''{'' # mid @ [CHR ''}'']) @ post) = Some v \<and>
         extractJsonFromString (pre @ (CHR ''{'' # mid @ [CHR ''}'']) @ post) =
           Some (CHR ''{'' # mid @ [CHR ''}''])"
proof
  have "method1 rt (pre @ (CHR ''{'' # mid @ [CHR ''}'']) @ post) = Some v"
    using method1_finds_object [OF assms(1,2)] assms(3) by simp
  then show "extractJsonFromText rt (pre @ (CHR ''{'' # mid @ [CHR ''}'']) @ post) = Some v"
    by (simp add: extractJsonFromText_def)
  show "extractJsonFromString (pre @ (CHR ''{'' # mid @ [CHR ''}'']) @ post) =
           Some (CHR ''{'' # mid @ [CHR ''}''])"
    by (rule extractJsonFromString_finds_object [OF assms(1,2)])
qed

theorem C2_extraction_without_braces_in_noise_witness:
  \<open>CHR ''{'' \<notin> set fenced_prefix \<and> CHR ''}'' \<notin> set fenced_suffix \<and>
   JSON_parse model_runtime small_object = Some (JObj [(''a'', JNum (Fin 1))]) \<and>
   extractJsonFromText model_runtime (fenced_prefix @ small_object @ fenced_suffix) =
     Some (JObj [(''a'', JNum (Fin 1))]) \<and>
   extractJsonFromString (fenced_prefix @ small_object @ fenced_suffix) = Some small_object\<close>
proof -
  have h1: "CHR ''{'' \<notin> set fenced_prefix" by (simp add: fenced_prefix_def)
  have h2: "CHR ''}'' \<notin> set fenced_suffix" by (simp add: fenced_suffix_def)
  have obj: \<open>small_object = CHR ''{'' # ''"a":1'' @ [CHR ''}'']\<close>
    by (simp add: small_object_def)
  have p: "JSON_parse model_runtime small_object = Some (JObj [(''a'', JNum (Fin 1))])"
    by code_simp
  note inst = C2_extraction_without_braces_in_noise [OF h1 h2 p [unfolded obj]]
  show ?thesis
    using h1 h2 p inst unfolding obj by blast
qed

text \<open>
  With braces in the prose the extractor does not recover the object: for the text
  \<^verbatim>\<open>Set {x} to {"a":1}\<close> the first method takes \<^verbatim>\<open>{x} to {"a":1}\<close>, the third and the
  fourth take \<^verbatim>\<open>{x}\<close>, the second finds no fence, and the function throws; the
  extractor of the client returns \<^verbatim>\<open>{x} to {"a":1}\<close>, which is not JSON.
\<close>

theorem C2_braces_in_prose_counterexample:
  \<open>json_parse small_object = Some (JObj [(''a'', JNum (Fin 1))]) \<and>
   extractJsonFromText model_runtime braced_prose_reply = None \<and>
   extractJsonFromString braced_prose_reply = Some ''{x} to {"a":1}'' \<and>
   json_parse ''{x} to {"a":1}'' = None\<close>
  by code_simp

lemma braced_prose_methods:
  \<open>text_match Eps first_to_last_brace Eps braced_prose_reply =
     Some (''{x} to {"a":1}'', ''{x} to {"a":1}'') \<and>
   text_match fence_open fenced_object fence_close braced_prose_reply = None \<and>
   text_match Eps nested_object Eps braced_prose_reply = Some (''{x}'', ''{x}'') \<and>
   cleanedText braced_prose_reply = ''{x}'' \<and>
   json_parse ''{x}'' = None\<close>
  by code_simp


end
